theory Spec2Isabelle
  imports Complex_Main
begin

section \<open>JavaScript numbers\<close>

text \<open>
  The analysis code computes with JavaScript numbers. They are modelled as exact reals
  extended with the three special values of IEEE arithmetic, so that a division by zero
  and a comparison with NaN behave as they do in the program. Rounding to the nearest
  representable float, overflow and the sign of zero are not modelled.
  Values that the program can only obtain as finite numbers (audio samples, spectrum
  bytes, sums and products of them) are plain reals.
\<close>

datatype jsnum = Fin real | PInf | NInf | NaN

fun jlt :: "jsnum \<Rightarrow> jsnum \<Rightarrow> bool" where
  "jlt (Fin a) (Fin b) = (a < b)"
| "jlt NaN _ = False"
| "jlt _ NaN = False"
| "jlt PInf _ = False"
| "jlt _ NInf = False"
| "jlt NInf _ = True"
| "jlt _ PInf = True"

definition jgt :: "jsnum \<Rightarrow> jsnum \<Rightarrow> bool" where
  "jgt a b = jlt b a"

fun jneg :: "jsnum \<Rightarrow> jsnum" where
  "jneg (Fin a) = Fin (- a)"
| "jneg PInf = NInf"
| "jneg NInf = PInf"
| "jneg NaN = NaN"

fun jadd :: "jsnum \<Rightarrow> jsnum \<Rightarrow> jsnum" where
  "jadd (Fin a) (Fin b) = Fin (a + b)"
| "jadd NaN _ = NaN"
| "jadd _ NaN = NaN"
| "jadd PInf NInf = NaN"
| "jadd NInf PInf = NaN"
| "jadd PInf _ = PInf"
| "jadd NInf _ = NInf"
| "jadd _ PInf = PInf"
| "jadd _ NInf = NInf"

definition jsub :: "jsnum \<Rightarrow> jsnum \<Rightarrow> jsnum" where
  "jsub a b = jadd a (jneg b)"

definition jinf :: "bool \<Rightarrow> jsnum" where
  "jinf positive = (if positive then PInf else NInf)"

fun jmul :: "jsnum \<Rightarrow> jsnum \<Rightarrow> jsnum" where
  "jmul (Fin a) (Fin b) = Fin (a * b)"
| "jmul NaN _ = NaN"
| "jmul _ NaN = NaN"
| "jmul (Fin a) PInf = (if a = 0 then NaN else jinf (0 < a))"
| "jmul (Fin a) NInf = (if a = 0 then NaN else jinf (a < 0))"
| "jmul PInf (Fin b) = (if b = 0 then NaN else jinf (0 < b))"
| "jmul NInf (Fin b) = (if b = 0 then NaN else jinf (b < 0))"
| "jmul PInf PInf = PInf"
| "jmul NInf NInf = PInf"
| "jmul PInf NInf = NInf"
| "jmul NInf PInf = NInf"

fun jdiv :: "jsnum \<Rightarrow> jsnum \<Rightarrow> jsnum" where
  "jdiv (Fin a) (Fin b) =
     (if b \<noteq> 0 then Fin (a / b) else if a = 0 then NaN else jinf (0 < a))"
| "jdiv NaN _ = NaN"
| "jdiv _ NaN = NaN"
| "jdiv (Fin a) PInf = Fin 0"
| "jdiv (Fin a) NInf = Fin 0"
| "jdiv PInf (Fin b) = jinf (0 \<le> b)"
| "jdiv NInf (Fin b) = jinf (b < 0)"
| "jdiv PInf PInf = NaN"
| "jdiv NInf NInf = NaN"
| "jdiv PInf NInf = NaN"
| "jdiv NInf PInf = NaN"

fun jabs :: "jsnum \<Rightarrow> jsnum" where
  "jabs (Fin a) = Fin \<bar>a\<bar>"
| "jabs PInf = PInf"
| "jabs NInf = PInf"
| "jabs NaN = NaN"

fun jsqrt :: "jsnum \<Rightarrow> jsnum" where
  "jsqrt (Fin a) = (if a < 0 then NaN else Fin (sqrt a))"
| "jsqrt PInf = PInf"
| "jsqrt NInf = NaN"
| "jsqrt NaN = NaN"

fun jmin :: "jsnum \<Rightarrow> jsnum \<Rightarrow> jsnum" where
  "jmin NaN _ = NaN"
| "jmin _ NaN = NaN"
| "jmin a b = (if jlt b a then b else a)"

section \<open>Constants\<close>

definition NOTE_NAMES :: "string list" where
  "NOTE_NAMES =
     [''C'', ''C#'', ''D'', ''D#'', ''E'', ''F'', ''F#'', ''G'', ''G#'', ''A'', ''A#'', ''B'']"

text \<open>The chord templates, in declaration order (the order \<open>Object.entries\<close> visits them).\<close>

definition CHORD_TEMPLATES :: "(string \<times> nat list) list" where
  "CHORD_TEMPLATES =
     [(''major'', [0, 4, 7]),
      (''minor'', [0, 3, 7]),
      (''diminished'', [0, 3, 6]),
      (''augmented'', [0, 4, 8]),
      (''suspended4'', [0, 5, 7]),
      (''suspended2'', [0, 2, 7])]"

section \<open>ChordRecognizer\<close>

text \<open>
  A \<open>ChordInfo\<close> object. The fields \<open>root\<close>, \<open>type\<close>, \<open>name\<close>, \<open>notes\<close> and
  \<open>confidence\<close> of the source carry the prefix \<open>chord_\<close> here.
\<close>

record ChordInfo =
  chord_root :: string
  chord_type :: string
  chord_name :: string
  chord_notes :: "string list"
  chord_confidence :: real

text \<open>The remainder operator \<open>%\<close> on integers: the result has the sign of the dividend.\<close>

definition js_rem :: "int \<Rightarrow> int \<Rightarrow> int" where
  "js_rem a b = (if 0 \<le> a then a mod \<bar>b\<bar> else - ((- a) mod \<bar>b\<bar>))"



definition formatChordType :: "string \<Rightarrow> string" where
  "formatChordType t =
     (if t = ''major'' then ''major''
      else if t = ''minor'' then ''minor''
      else if t = ''diminished'' then ''diminished''
      else if t = ''augmented'' then ''augmented''
      else if t = ''suspended4'' \<or> t = ''suspended2'' then ''suspended''
      else ''unknown'')"

text \<open>
  \<open>matchTemplate\<close>: the first loop rewards the template's pitch classes, the second one
  subtracts 0.3 times every other pitch class. The chromagram has 12 entries and
  \<open>root < 12\<close> (the variable \<open>root\<close> is written \<open>rootPc\<close>, since \<open>root\<close> is the n-th root of HOL), so \<open>i - root + 12\<close> is positive and every read is in range.
\<close>

definition matchTemplate :: "real list \<Rightarrow> nat \<Rightarrow> nat list \<Rightarrow> real" where
  "matchTemplate chromagram rootPc intervals =
     (let score = fold (\<lambda>interval score. score + chromagram ! ((rootPc + interval) mod 12))
                    intervals 0
      in fold (\<lambda>i score.
            if (i + 12 - rootPc) mod 12 \<notin> set intervals
            then score - chromagram ! i * 0.3 else score)
          [0..<12] score)"

text \<open>The object literal that \<open>recognize\<close> builds for a new best chord.\<close>

definition makeChord :: "nat \<Rightarrow> string \<Rightarrow> nat list \<Rightarrow> real \<Rightarrow> ChordInfo" where
  "makeChord rootPc type intervals score =
     (let rootName = NOTE_NAMES ! rootPc;
          typeLabel = formatChordType type
      in \<lparr> chord_root = rootName,
           chord_type = typeLabel,
           chord_name = rootName @ (if type = ''major'' then [] else typeLabel),
           chord_notes = map (\<lambda>interval. NOTE_NAMES ! ((rootPc + interval) mod 12)) intervals,
           chord_confidence = min (score / 3) 1 \<rparr>)"

text \<open>
  The body of the two nested loops of \<open>recognize\<close>; the state is the pair of the
  variables \<open>bestScore\<close> (initially \<open>-Infinity\<close>) and \<open>bestChord\<close> (initially null).
\<close>

definition recognize_step ::
  "real list \<Rightarrow> nat \<Rightarrow> string \<times> nat list \<Rightarrow> jsnum \<times> ChordInfo option
     \<Rightarrow> jsnum \<times> ChordInfo option" where
  "recognize_step chromagram rootPc entry st =
     (case entry of (type, intervals) \<Rightarrow>
        let score = matchTemplate chromagram rootPc intervals
        in if jgt (Fin score) (fst st)
           then (Fin score, Some (makeChord rootPc type intervals score))
           else st)"

definition recognize_loop :: "real list \<Rightarrow> jsnum \<times> ChordInfo option" where
  "recognize_loop chromagram =
     fold (\<lambda>rootPc st. fold (recognize_step chromagram rootPc) CHORD_TEMPLATES st)
       [0..<12] (NInf, None)"

definition recognize :: "real list \<Rightarrow> ChordInfo option" where
  "recognize chromagram = snd (recognize_loop chromagram)"

text \<open>The 72 candidates in the order the two loops of \<open>recognize\<close> visit them, and the
  score and chord of each: auxiliary notions for the proofs.\<close>

definition candidates :: "(nat \<times> string \<times> nat list) list" where
  "candidates = concat (map (\<lambda>rootPc. map (Pair rootPc) CHORD_TEMPLATES) [0..<12])"

definition cand_score :: "real list \<Rightarrow> nat \<times> string \<times> nat list \<Rightarrow> real" where
  "cand_score c x = matchTemplate c (fst x) (snd (snd x))"

definition cand_chord :: "real list \<Rightarrow> nat \<times> string \<times> nat list \<Rightarrow> ChordInfo" where
  "cand_chord c x = makeChord (fst x) (fst (snd x)) (snd (snd x)) (cand_score c x)"

definition cand_step :: "real list \<Rightarrow> nat \<times> string \<times> nat list \<Rightarrow> jsnum \<times> ChordInfo option \<Rightarrow> jsnum \<times> ChordInfo option" where
  "cand_step c x st = recognize_step c (fst x) (snd x) st"

text \<open>The sum of the scores of the major template over the twelve roots: auxiliary.\<close>

definition major_total :: "real list \<Rightarrow> real" where
  "major_total c = matchTemplate c 0 [0, 4, 7] + matchTemplate c 1 [0, 4, 7]
      + matchTemplate c 2 [0, 4, 7] + matchTemplate c 3 [0, 4, 7]
      + matchTemplate c 4 [0, 4, 7] + matchTemplate c 5 [0, 4, 7]
      + matchTemplate c 6 [0, 4, 7] + matchTemplate c 7 [0, 4, 7]
      + matchTemplate c 8 [0, 4, 7] + matchTemplate c 9 [0, 4, 7]
      + matchTemplate c 10 [0, 4, 7] + matchTemplate c 11 [0, 4, 7]"


section \<open>Errors and typed arrays\<close>

text \<open>
  The exceptions the code can raise: the \<open>RangeError\<close> of a typed-array constructor called
  with a negative length, the \<open>Error\<close> that \<open>noteToFrequency\<close> throws (with the offending
  note), and the \<open>IndexSizeError\<close> with which the platform's \<open>AnalyserNode\<close> refuses a
  value of \<open>fftSize\<close> or \<open>smoothingTimeConstant\<close>.
\<close>

datatype error = RangeError | InvalidNoteFormat string | IndexSizeError

text \<open>
  \<open>new Float32Array(len)\<close>: the length is truncated towards zero; a negative result
  raises \<open>RangeError\<close>. The function returns the length of the new, zero-filled array.
\<close>

definition newFloat32Array :: "real \<Rightarrow> error + nat" where
  "newFloat32Array len = (if len \<le> - 1 then Inl RangeError else Inr (nat \<lfloor>len\<rfloor>))"

text \<open>
  Reading a typed array of numbers at an integer index: out of range the result is
  \<open>undefined\<close>, which behaves as NaN in every comparison and arithmetic operation.
\<close>

definition rd :: "jsnum list \<Rightarrow> int \<Rightarrow> jsnum" where
  "rd xs i = (if 0 \<le> i \<and> i < int (length xs) then xs ! nat i else NaN)"

section \<open>Volume\<close>

text \<open>\<open>calculateVolume\<close>: the sum of squares is finite; the division by the length is not guarded.\<close>

definition calculateVolume :: "real list \<Rightarrow> jsnum" where
  "calculateVolume data =
     (let sum = fold (\<lambda>i sum. sum + data ! i * data ! i) [0..<length data] 0;
          rms = jsqrt (jdiv (Fin sum) (Fin (real (length data))))
      in jmin (jmul rms (Fin (sqrt 2))) (Fin 1))"

section \<open>Note names\<close>

text \<open>The decimal representation of an integer, as string concatenation produces it.\<close>

fun digits :: "nat \<Rightarrow> string" where
  "digits n = (if n < 10 then [char_of (48 + n)] else digits (n div 10) @ [char_of (48 + n mod 10)])"

declare digits.simps [simp del]

definition show_int :: "int \<Rightarrow> string" where
  "show_int i = (if i < 0 then CHR ''-'' # digits (nat (- i)) else digits (nat i))"

text \<open>
  \<open>frequencyToNote\<close>, for a positive finite frequency. A negative \<open>noteIndex % 12\<close> reads
  \<open>NOTE_NAMES\<close> out of range, and the template string renders the result as \<open>undefined\<close>.
\<close>

definition frequencyToNote :: "real \<Rightarrow> string" where
  "frequencyToNote frequency =
     (let A4 = 440;
          semitones = 12 * log 2 (frequency / A4);
          noteIndex = round semitones + 69;
          octave = noteIndex div 12 - 1;
          k = js_rem noteIndex 12;
          noteName = (if 0 \<le> k \<and> k < 12 then NOTE_NAMES ! nat k else ''undefined'')
      in noteName @ show_int octave)"

text \<open>\<open>parseInt\<close> of a one-character string, radix 10: a digit, or NaN (here \<open>None\<close>).\<close>

definition parseDigit :: "char \<Rightarrow> nat option" where
  "parseDigit c =
     (let n = (of_char c :: nat) in if 48 \<le> n \<and> n \<le> 57 then Some (n - 48) else None)"

text \<open>\<open>Array.prototype.indexOf\<close>: the first position of an element, \<open>None\<close> for \<open>-1\<close>.\<close>

fun indexOf :: "'a list \<Rightarrow> 'a \<Rightarrow> nat option" where
  "indexOf [] x = None"
| "indexOf (y # ys) x = (if y = x then Some 0 else map_option Suc (indexOf ys x))"

text \<open>
  \<open>noteToFrequency\<close>: \<open>note.slice(-1)\<close> is the last character (the empty string for an
  empty note, which \<open>parseInt\<close> turns into NaN), \<open>note.slice(0, -1)\<close> is the rest.
\<close>

definition noteToFrequency :: "string \<Rightarrow> error + real" where
  "noteToFrequency note =
     (let A4 = 440;
          octave = (if note = [] then None else parseDigit (last note));
          noteName = butlast note;
          noteIndex = indexOf NOTE_NAMES noteName
      in case (noteIndex, octave) of
           (Some i, Some oc) \<Rightarrow>
             (let semitonesFromA4 = int i + (int oc - 4) * 12 - 9
              in Inr (A4 * 2 powr (real_of_int semitonesFromA4 / 12)))
         | _ \<Rightarrow> Inl (InvalidNoteFormat note))"

text \<open>The characters of a decimal integer: auxiliary, for the proofs about note names.\<close>

definition digit_or_minus :: "char \<Rightarrow> bool" where
  "digit_or_minus c = (c = CHR ''-'' \<or> (48 \<le> (of_char c :: nat) \<and> (of_char c :: nat) \<le> 57))"


section \<open>YINDetector\<close>

text \<open>
  The detector object. Its parameters are finite numbers different from zero (the
  divisions by \<open>minFrequency\<close> and \<open>maxFrequency\<close> are written with the division of the
  reals); the sample window is a list of finite samples.
\<close>

record YINDetector =
  yin_sampleRate :: real
  yin_threshold :: real
  yin_minFrequency :: real
  yin_maxFrequency :: real

text \<open>The result object \<open>{ frequency, confidence }\<close>; \<open>None\<close> stands for \<open>null\<close>.\<close>

record PitchResult =
  pitch_frequency :: jsnum
  pitch_confidence :: jsnum

text \<open>
  \<open>differenceFunction\<close>. The outer loop assigns \<open>difference[tau]\<close> for every \<open>tau < maxLag\<close>;
  an assignment beyond the end of the typed array has no effect, so the array is the map
  of the loop body over its indices. The inner loop runs while \<open>j < bufferSize - maxLag\<close>.
\<close>

definition differenceFunction :: "real list \<Rightarrow> nat \<Rightarrow> real \<Rightarrow> error + real list" where
  "differenceFunction buffer bufferSize maxLag =
     (case newFloat32Array maxLag of
        Inl e \<Rightarrow> Inl e
      | Inr n \<Rightarrow>
          Inr (map (\<lambda>tau.
                 fold (\<lambda>j sum. let delta = buffer ! j - buffer ! (j + tau)
                                in sum + delta * delta)
                   [0..<nat \<lceil>real bufferSize - maxLag\<rceil>] 0)
               [0..<n]))"

text \<open>
  \<open>cumulativeMeanNormalizedDifference\<close>. The state of the loop is the running sum and the
  array; \<open>cmndf[0] = 1\<close> has no effect on an empty array, as the list update.
\<close>

definition cumulativeMeanNormalizedDifference :: "real list \<Rightarrow> real \<Rightarrow> error + jsnum list" where
  "cumulativeMeanNormalizedDifference difference maxLag =
     (case newFloat32Array maxLag of
        Inl e \<Rightarrow> Inl e
      | Inr n \<Rightarrow>
          Inr (snd (fold (\<lambda>tau (runningSum, cmndf).
                      let runningSum' = runningSum + difference ! tau
                      in (runningSum',
                          cmndf[tau := jdiv (Fin (difference ! tau))
                                         (jdiv (Fin runningSum') (Fin (real tau)))]))
                    [1..<n] (0, (replicate n (Fin 0))[0 := Fin 1]))))"

text \<open>
  \<open>absoluteThreshold\<close>: the inner loop that walks down to the local minimum, the outer
  loop that looks for the first value below the threshold, and the function itself,
  which starts the outer loop at \<open>minLag\<close>. The result \<open>- 1\<close> means that nothing was found.
\<close>

function absoluteThreshold_descend :: "jsnum list \<Rightarrow> real \<Rightarrow> int \<Rightarrow> int" where
  "absoluteThreshold_descend cmndf maxLag tau =
     (if real_of_int (tau + 1) < maxLag \<and> jlt (rd cmndf (tau + 1)) (rd cmndf tau)
      then absoluteThreshold_descend cmndf maxLag (tau + 1)
      else tau)"
  by pat_completeness auto
termination
  by (relation "measure (\<lambda>(cmndf, maxLag, tau). nat (\<lceil>maxLag\<rceil> - tau))") (auto, linarith)

declare absoluteThreshold_descend.simps [simp del]

function absoluteThreshold_loop :: "real \<Rightarrow> jsnum list \<Rightarrow> real \<Rightarrow> int \<Rightarrow> int" where
  "absoluteThreshold_loop threshold cmndf maxLag tau =
     (if real_of_int tau < maxLag
      then (if jlt (rd cmndf tau) (Fin threshold)
            then absoluteThreshold_descend cmndf maxLag tau
            else absoluteThreshold_loop threshold cmndf maxLag (tau + 1))
      else - 1)"
  by pat_completeness auto
termination
  by (relation "measure (\<lambda>(threshold, cmndf, maxLag, tau). nat (\<lceil>maxLag\<rceil> - tau))")
     (auto, linarith)

declare absoluteThreshold_loop.simps [simp del]

definition absoluteThreshold :: "real \<Rightarrow> jsnum list \<Rightarrow> int \<Rightarrow> real \<Rightarrow> int" where
  "absoluteThreshold threshold cmndf minLag maxLag =
     absoluteThreshold_loop threshold cmndf maxLag minLag"

definition parabolicInterpolation :: "jsnum list \<Rightarrow> int \<Rightarrow> jsnum" where
  "parabolicInterpolation cmndf tau =
     (if tau \<le> 0 \<or> tau \<ge> int (length cmndf) - 1 then Fin (real_of_int tau)
      else
        let alpha = rd cmndf (tau - 1);
            beta = rd cmndf tau;
            gamma = rd cmndf (tau + 1);
            denom = jmul (Fin 2) (jsub (jsub (jmul (Fin 2) beta) alpha) gamma)
        in if jlt (jabs denom) (Fin (1 / 10 ^ 10)) then Fin (real_of_int tau)
           else
             let offset = jdiv (jsub gamma alpha) denom
             in jadd (Fin (real_of_int tau)) offset)"

text \<open>\<open>YINDetector.detect\<close>.\<close>

definition yin_detect :: "YINDetector \<Rightarrow> real list \<Rightarrow> error + PitchResult option" where
  "yin_detect d buffer =
     (let bufferSize = length buffer;
          minLag = \<lfloor>yin_sampleRate d / yin_maxFrequency d\<rfloor>;
          maxLag = min (real_of_int \<lfloor>yin_sampleRate d / yin_minFrequency d\<rfloor>)
                       (real bufferSize / 2)
      in case differenceFunction buffer bufferSize maxLag of
           Inl e \<Rightarrow> Inl e
         | Inr difference \<Rightarrow>
             (case cumulativeMeanNormalizedDifference difference maxLag of
                Inl e \<Rightarrow> Inl e
              | Inr cmndf \<Rightarrow>
                  let tau = absoluteThreshold (yin_threshold d) cmndf minLag maxLag
                  in if tau = - 1 then Inr None
                     else
                       let betterTau = parabolicInterpolation cmndf tau;
                           frequency = jdiv (Fin (yin_sampleRate d)) betterTau;
                           confidence = jsub (Fin 1) (rd cmndf tau)
                       in if jlt frequency (Fin (yin_minFrequency d))
                             \<or> jgt frequency (Fin (yin_maxFrequency d))
                          then Inr None
                          else Inr (Some \<lparr> pitch_frequency = frequency,
                                           pitch_confidence = confidence \<rparr>)))"

text \<open>
  Names for the lag bounds and for the array \<open>cmndf\<close> that \<open>detect\<close> computes on a window
  (the empty array when an allocation fails), and the possible values of its entries:
  auxiliary notions for stating and proving the properties of the detector.
\<close>

definition yin_minLag :: "YINDetector \<Rightarrow> int" where
  "yin_minLag d = \<lfloor>yin_sampleRate d / yin_maxFrequency d\<rfloor>"

definition yin_maxLag :: "YINDetector \<Rightarrow> real list \<Rightarrow> real" where
  "yin_maxLag d buffer =
     min (real_of_int \<lfloor>yin_sampleRate d / yin_minFrequency d\<rfloor>) (real (length buffer) / 2)"

definition yin_cmndf :: "YINDetector \<Rightarrow> real list \<Rightarrow> jsnum list" where
  "yin_cmndf d buffer =
     (case differenceFunction buffer (length buffer) (yin_maxLag d buffer) of
        Inl e \<Rightarrow> []
      | Inr difference \<Rightarrow>
          (case cumulativeMeanNormalizedDifference difference (yin_maxLag d buffer) of
             Inl e \<Rightarrow> []
           | Inr cmndf \<Rightarrow> cmndf))"


section \<open>BPMDetector\<close>

text \<open>
  An \<open>AudioBuffer\<close> of the platform: its sample rate, its length in samples and the data
  of its channels (\<open>numberOfChannels\<close> is the number of channels, \<open>getChannelData(ch)\<close> the
  channel at position \<open>ch\<close>). Every channel holds \<open>ab_length\<close> samples.
\<close>

record AudioBuffer =
  ab_sampleRate :: real
  ab_length :: nat
  ab_channels :: "real list list"

definition numberOfChannels :: "AudioBuffer \<Rightarrow> nat" where
  "numberOfChannels audioBuffer = length (ab_channels audioBuffer)"

definition getChannelData :: "AudioBuffer \<Rightarrow> nat \<Rightarrow> real list" where
  "getChannelData audioBuffer ch = ab_channels audioBuffer ! ch"

text \<open>
  The detector object. The sample rate is at least 100 Hz, so that the hop size is
  positive, and the BPM bounds are finite numbers different from zero.
\<close>

record BPMDetector =
  bpm_sampleRate :: real
  bpm_minBpm :: real
  bpm_maxBpm :: real

record BPMResult =
  bpm :: "int option"
  bpm_confidence :: real
  beatPositions :: "real list"

definition mixChannels :: "AudioBuffer \<Rightarrow> real list" where
  "mixChannels audioBuffer =
     (let len = ab_length audioBuffer;
          numChannels = numberOfChannels audioBuffer
      in map (\<lambda>i. fold (\<lambda>ch sum. sum + getChannelData audioBuffer ch ! i) [0..<numChannels] 0
                    / real numChannels)
           [0..<len])"

text \<open>
  \<open>calculateEnergyEnvelope\<close>: \<open>new Float32Array(numFrames)\<close> raises \<open>RangeError\<close> for a
  negative number of frames. The inner loop runs while \<open>j < windowSize\<close> and
  \<open>start + j < data.length\<close>.
\<close>

definition calculateEnergyEnvelope :: "real list \<Rightarrow> int \<Rightarrow> nat \<Rightarrow> nat \<Rightarrow> error + real list" where
  "calculateEnergyEnvelope data numFrames windowSize hopSize =
     (case newFloat32Array (real_of_int numFrames) of
        Inl e \<Rightarrow> Inl e
      | Inr n \<Rightarrow>
          Inr (map (\<lambda>i. let start = i * hopSize;
                             sum = fold (\<lambda>j sum. sum + data ! (start + j) * data ! (start + j))
                                     [0..<min windowSize (length data - start)] 0
                         in sqrt (sum / real windowSize))
                 [0..<n]))"

definition differentiate :: "real list \<Rightarrow> real list" where
  "differentiate envelope =
     map (\<lambda>i. if i = 0 then 0 else max 0 (envelope ! i - envelope ! (i - 1)))
       [0..<length envelope]"

definition autocorrelate :: "real list \<Rightarrow> real list" where
  "autocorrelate data =
     (let n = length data
      in map (\<lambda>lag. fold (\<lambda>i sum. sum + data ! i * data ! (i + lag)) [0..<n - lag] 0) [0..<n])"

text \<open>
  The peak test of \<open>detect\<close>, for a lag inside the array: no other value within two
  positions is greater.
\<close>

definition isPeak :: "real list \<Rightarrow> int \<Rightarrow> bool" where
  "isPeak autocorr lag =
     list_all (\<lambda>i. \<not> (i \<noteq> lag \<and> autocorr ! nat i > autocorr ! nat lag))
       [max 0 (lag - 2) .. min (int (length autocorr) - 1) (lag + 2)]"

text \<open>
  The body of the lag loop of \<open>detect\<close>; the state is \<open>(bestConfidence, bestLag)\<close>. At a
  negative lag the array read is \<open>undefined\<close> and the comparison is false.
\<close>

definition bpm_step :: "real list \<Rightarrow> int \<Rightarrow> real \<times> int \<Rightarrow> real \<times> int" where
  "bpm_step autocorr lag st =
     (if 0 \<le> lag \<and> autocorr ! nat lag > fst st
      then (if isPeak autocorr lag then (autocorr ! nat lag, lag) else st)
      else st)"

text \<open>The lag loop: \<open>lag\<close> runs from \<open>minLag\<close> while \<open>lag <= maxLag\<close> and \<open>lag < autocorr.length\<close>.\<close>

definition bpm_search :: "real list \<Rightarrow> int \<Rightarrow> int \<Rightarrow> real \<times> int" where
  "bpm_search autocorr minLag maxLag =
     fold (bpm_step autocorr) [minLag .. min maxLag (int (length autocorr) - 1)] (0, 0)"

text \<open>
  \<open>detectBeatPositions\<close>. It is called for a non-empty onset curve only; on an empty one
  the loop does not run and the threshold is not used.
\<close>

definition detectBeatPositions :: "real \<Rightarrow> real list \<Rightarrow> nat \<Rightarrow> real list" where
  "detectBeatPositions sampleRate diffEnvelope hopSize =
     (let threshold = 0.3 * Max (set diffEnvelope)
      in map (\<lambda>i. real (i * hopSize) / sampleRate)
           (filter (\<lambda>i. diffEnvelope ! i > threshold
                        \<and> diffEnvelope ! i > diffEnvelope ! (i - 1)
                        \<and> diffEnvelope ! i > diffEnvelope ! (i + 1))
              [1..<length diffEnvelope - 1]))"

text \<open>The onset curve of a buffer: the first half of \<open>BPMDetector.detect\<close>.\<close>

definition channelData_of :: "AudioBuffer \<Rightarrow> real list" where
  "channelData_of audioBuffer =
     (if numberOfChannels audioBuffer > 1 then mixChannels audioBuffer
      else getChannelData audioBuffer 0)"

definition hopSize_of :: "BPMDetector \<Rightarrow> nat" where
  "hopSize_of d = nat \<lfloor>bpm_sampleRate d * 0.01\<rfloor>"

definition windowSize_of :: "BPMDetector \<Rightarrow> nat" where
  "windowSize_of d = nat \<lfloor>bpm_sampleRate d * 0.04\<rfloor>"

definition bpm_minLag :: "BPMDetector \<Rightarrow> int" where
  "bpm_minLag d = \<lfloor>(60 / bpm_maxBpm d) * (bpm_sampleRate d / real (hopSize_of d))\<rfloor>"

definition bpm_maxLag :: "BPMDetector \<Rightarrow> int" where
  "bpm_maxLag d = \<lceil>(60 / bpm_minBpm d) * (bpm_sampleRate d / real (hopSize_of d))\<rceil>"

definition onsetCurve :: "BPMDetector \<Rightarrow> AudioBuffer \<Rightarrow> error + real list" where
  "onsetCurve d audioBuffer =
     (let channelData = channelData_of audioBuffer;
          hopSize = hopSize_of d;
          windowSize = windowSize_of d;
          numFrames = \<lfloor>(real (length channelData) - real windowSize) / real hopSize\<rfloor>
      in case calculateEnergyEnvelope channelData numFrames windowSize hopSize of
           Inl e \<Rightarrow> Inl e
         | Inr energyEnvelope \<Rightarrow> Inr (differentiate energyEnvelope))"

text \<open>\<open>BPMDetector.detect\<close>. The expression \<open>autocorr[0] || 1\<close> is 1 when the array is empty or its
  first value is 0.\<close>

definition bpm_detect :: "BPMDetector \<Rightarrow> AudioBuffer \<Rightarrow> error + BPMResult" where
  "bpm_detect d audioBuffer =
     (case onsetCurve d audioBuffer of
        Inl e \<Rightarrow> Inl e
      | Inr diffEnvelope \<Rightarrow>
          let hopSize = hopSize_of d;
              autocorr = autocorrelate diffEnvelope;
              (bestConfidence, bestLag) = bpm_search autocorr (bpm_minLag d) (bpm_maxLag d);
              bestBpm =
                (if bestLag > 0
                 then (let secondsPerBeat = (real_of_int bestLag * real hopSize) / bpm_sampleRate d
                       in Some (round (60 / secondsPerBeat)))
                 else None);
              beats =
                (if bestLag > 0
                 then detectBeatPositions (bpm_sampleRate d) diffEnvelope hopSize
                 else []);
              denominator = (if autocorr = [] \<or> autocorr ! 0 = 0 then 1 else autocorr ! 0)
          in Inr \<lparr> bpm = bestBpm,
                   bpm_confidence = min (bestConfidence / denominator) 1,
                   beatPositions = beats \<rparr>)"




section \<open>AudioAnalyzer\<close>

text \<open>
  \<open>AnalysisOptions\<close>: every field is optional; \<open>None\<close> stands for an absent field.
\<close>

record AnalysisOptions =
  opt_fftSize :: "real option"
  opt_smoothingTimeConstant :: "real option"
  opt_minFrequency :: "real option"
  opt_maxFrequency :: "real option"
  opt_yinThreshold :: "real option"
  opt_enableAdvanced :: "bool option"
  opt_minBpm :: "real option"
  opt_maxBpm :: "real option"

text \<open>\<open>Required<AnalysisOptions>\<close>, the type of the field \<open>options\<close> of the analyzer.\<close>

record Options =
  fftSize :: real
  smoothingTimeConstant :: real
  minFrequency :: real
  maxFrequency :: real
  yinThreshold :: real
  enableAdvanced :: bool
  minBpm :: real
  maxBpm :: real

text \<open>
  The \<open>AnalyserNode\<close> belongs to the platform, not to this repository. Assigning to its
  properties \<open>fftSize\<close> and \<open>smoothingTimeConstant\<close> can raise \<open>IndexSizeError\<close>; which values
  it accepts is a parameter of the model.
\<close>

record AnalyserChecks =
  fftSize_ok :: "real \<Rightarrow> bool"
  smoothing_ok :: "real \<Rightarrow> bool"

text \<open>
  The checks of the Web Audio specification: \<open>fftSize\<close> is a power of two from 32 to 32768,
  \<open>smoothingTimeConstant\<close> lies between 0 and 1.
\<close>

definition webAudioChecks :: AnalyserChecks where
  "webAudioChecks =
     \<lparr> fftSize_ok = (\<lambda>n. n \<in> set (map (\<lambda>k. 2 ^ k) [5..<16])),
       smoothing_ok = (\<lambda>s. 0 \<le> s \<and> s \<le> 1) \<rparr>"

text \<open>
  The analyzer object: the sample rate of its audio context, the two properties set on
  its analyser node, its options and its pitch detector.
\<close>

record AudioAnalyzer =
  contextSampleRate :: real
  analyser_fftSize :: real
  analyser_smoothingTimeConstant :: real
  options :: Options
  yinDetector :: YINDetector

definition newYINDetector :: "real \<Rightarrow> real \<Rightarrow> real \<Rightarrow> real \<Rightarrow> YINDetector" where
  "newYINDetector sampleRate threshold minFreq maxFreq =
     \<lparr> yin_sampleRate = sampleRate, yin_threshold = threshold,
       yin_minFrequency = minFreq, yin_maxFrequency = maxFreq \<rparr>"

text \<open>The operator \<open>??\<close>.\<close>

definition orDefault :: "'a option \<Rightarrow> 'a \<Rightarrow> 'a" where
  "orDefault v dflt = (case v of None \<Rightarrow> dflt | Some x \<Rightarrow> x)"

text \<open>The constructor of \<open>AudioAnalyzer\<close>, for an audio context with the given sample rate.\<close>

definition newAudioAnalyzer :: "AnalyserChecks \<Rightarrow> real \<Rightarrow> AnalysisOptions \<Rightarrow> error + AudioAnalyzer" where
  "newAudioAnalyzer chk sampleRate opts =
     (let os = \<lparr> fftSize = orDefault (opt_fftSize opts) 2048,
                  smoothingTimeConstant = orDefault (opt_smoothingTimeConstant opts) 0.8,
                  minFrequency = orDefault (opt_minFrequency opts) 50,
                  maxFrequency = orDefault (opt_maxFrequency opts) 5000,
                  yinThreshold = orDefault (opt_yinThreshold opts) 0.1,
                  enableAdvanced = orDefault (opt_enableAdvanced opts) False,
                  minBpm = orDefault (opt_minBpm opts) 60,
                  maxBpm = orDefault (opt_maxBpm opts) 180 \<rparr>
      in if \<not> fftSize_ok chk (fftSize os) then Inl IndexSizeError
         else if \<not> smoothing_ok chk (smoothingTimeConstant os) then Inl IndexSizeError
         else Inr \<lparr> contextSampleRate = sampleRate,
                    analyser_fftSize = fftSize os,
                    analyser_smoothingTimeConstant = smoothingTimeConstant os,
                    options = os,
                    yinDetector = newYINDetector sampleRate (yinThreshold os)
                                    (minFrequency os) (maxFrequency os) \<rparr>)"

text \<open>
  \<open>setOptions\<close>, one definition for each \<open>if\<close> of its body, in the order of the source.
  An exception of the analyser node leaves the method at that point.
\<close>

definition rebuildDetector :: "AudioAnalyzer \<Rightarrow> AudioAnalyzer" where
  "rebuildDetector a =
     a\<lparr> yinDetector := newYINDetector (contextSampleRate a) (yinThreshold (options a))
                          (minFrequency (options a)) (maxFrequency (options a)) \<rparr>"

definition set_fftSize :: "AnalyserChecks \<Rightarrow> real option \<Rightarrow> AudioAnalyzer \<Rightarrow> error + AudioAnalyzer" where
  "set_fftSize chk v a =
     (case v of
        None \<Rightarrow> Inr a
      | Some x \<Rightarrow>
          if fftSize_ok chk x
          then Inr (a\<lparr> options := (options a)\<lparr> fftSize := x \<rparr>, analyser_fftSize := x \<rparr>)
          else Inl IndexSizeError)"

definition set_smoothing :: "AnalyserChecks \<Rightarrow> real option \<Rightarrow> AudioAnalyzer \<Rightarrow> error + AudioAnalyzer" where
  "set_smoothing chk v a =
     (case v of
        None \<Rightarrow> Inr a
      | Some x \<Rightarrow>
          if smoothing_ok chk x
          then Inr (a\<lparr> options := (options a)\<lparr> smoothingTimeConstant := x \<rparr>,
                      analyser_smoothingTimeConstant := x \<rparr>)
          else Inl IndexSizeError)"

definition set_detection :: "AnalysisOptions \<Rightarrow> AudioAnalyzer \<Rightarrow> AudioAnalyzer" where
  "set_detection opts a =
     (let a1 = (case opt_minFrequency opts of
                  None \<Rightarrow> a
                | Some x \<Rightarrow> rebuildDetector (a\<lparr> options := (options a)\<lparr> minFrequency := x \<rparr> \<rparr>));
          a2 = (case opt_maxFrequency opts of
                  None \<Rightarrow> a1
                | Some x \<Rightarrow> rebuildDetector (a1\<lparr> options := (options a1)\<lparr> maxFrequency := x \<rparr> \<rparr>));
          a3 = (case opt_yinThreshold opts of
                  None \<Rightarrow> a2
                | Some x \<Rightarrow> rebuildDetector (a2\<lparr> options := (options a2)\<lparr> yinThreshold := x \<rparr> \<rparr>));
          a4 = (case opt_enableAdvanced opts of
                  None \<Rightarrow> a3
                | Some x \<Rightarrow> a3\<lparr> options := (options a3)\<lparr> enableAdvanced := x \<rparr> \<rparr>);
          a5 = (case opt_minBpm opts of
                  None \<Rightarrow> a4
                | Some x \<Rightarrow> a4\<lparr> options := (options a4)\<lparr> minBpm := x \<rparr> \<rparr>)
      in (case opt_maxBpm opts of
            None \<Rightarrow> a5
          | Some x \<Rightarrow> a5\<lparr> options := (options a5)\<lparr> maxBpm := x \<rparr> \<rparr>))"

definition setOptions :: "AnalyserChecks \<Rightarrow> AudioAnalyzer \<Rightarrow> AnalysisOptions \<Rightarrow> error + AudioAnalyzer" where
  "setOptions chk a opts =
     (case set_fftSize chk (opt_fftSize opts) a of
        Inl e \<Rightarrow> Inl e
      | Inr a1 \<Rightarrow>
          (case set_smoothing chk (opt_smoothingTimeConstant opts) a1 of
             Inl e \<Rightarrow> Inl e
           | Inr a2 \<Rightarrow> Inr (set_detection opts a2)))"

text \<open>
  \<open>AdvancedAnalysisResult\<close> and \<open>performAdvancedAnalysis\<close>. The fields \<open>bpm\<close> and
  \<open>beatPositions\<close> carry the prefix \<open>adv_\<close>. The spectrum is the byte array of the analyser
  node, the pitch result the one that \<open>analyze\<close> obtained from the pitch detector.
\<close>

record AdvancedAnalysisResult =
  adv_bpm :: "int option"
  bpmConfidence :: real
  chord :: "ChordInfo option"
  pitchConfidence :: jsnum
  chromagram :: "real list"
  adv_beatPositions :: "real list"



section \<open>Properties of the chord recognizer\<close>

lemma fold_concat_nested: "fold f (concat xss) s = fold (\<lambda>xs. fold f xs) xss s"
  by (induction xss arbitrary: s) simp_all

lemma recognize_loop_flat:
  "recognize_loop c = fold (cand_step c) candidates (NInf, None)"
proof -
  have "cand_step c \<circ> Pair r = recognize_step c r" for r
    by (rule ext) (simp add: cand_step_def fun_eq_iff)
  then show ?thesis
    by (simp add: recognize_loop_def candidates_def fold_concat_nested fold_map comp_def)
qed

lemma recognize_step_cand:
  "cand_step c x st =
     (if jgt (Fin (cand_score c x)) (fst st) then (Fin (cand_score c x), Some (cand_chord c x)) else st)"
  by (cases x) (simp add: cand_step_def recognize_step_def cand_score_def cand_chord_def Let_def split: prod.splits)

lemma fold_best_from:
  "\<exists>s ch. fold (cand_step c) xs (Fin s0, Some ch0) = (Fin s, Some ch)
      \<and> s0 \<le> s \<and> (\<forall>x\<in>set xs. cand_score c x \<le> s)
      \<and> ((s = s0 \<and> ch = ch0) \<or> (\<exists>x\<in>set xs. s = cand_score c x \<and> ch = cand_chord c x))"
proof (induction xs arbitrary: s0 ch0)
  case Nil
  then show ?case by simp
next
  case (Cons x xs)
  show ?case
  proof (cases "s0 < cand_score c x")
    case True
    then have step: "cand_step c x (Fin s0, Some ch0) = (Fin (cand_score c x), Some (cand_chord c x))"
      by (simp add: recognize_step_cand jgt_def)
    from Cons.IH[of "cand_score c x" "cand_chord c x"] obtain s ch where
      h: "fold (cand_step c) xs (Fin (cand_score c x), Some (cand_chord c x)) = (Fin s, Some ch)"
         "cand_score c x \<le> s" "\<forall>y\<in>set xs. cand_score c y \<le> s"
         "(s = cand_score c x \<and> ch = cand_chord c x) \<or> (\<exists>y\<in>set xs. s = cand_score c y \<and> ch = cand_chord c y)"
      by blast
    have "fold (cand_step c) (x # xs) (Fin s0, Some ch0) = (Fin s, Some ch)"
      using step h(1) by simp
    moreover have "s0 \<le> s" using True h(2) by simp
    moreover have "\<forall>y\<in>set (x # xs). cand_score c y \<le> s" using h(2,3) by simp
    moreover have "\<exists>y\<in>set (x # xs). s = cand_score c y \<and> ch = cand_chord c y"
      using h(4) by auto
    ultimately show ?thesis by blast
  next
    case False
    then have step: "cand_step c x (Fin s0, Some ch0) = (Fin s0, Some ch0)"
      by (simp add: recognize_step_cand jgt_def)
    from Cons.IH[of s0 ch0] obtain s ch where
      h: "fold (cand_step c) xs (Fin s0, Some ch0) = (Fin s, Some ch)"
         "s0 \<le> s" "\<forall>y\<in>set xs. cand_score c y \<le> s"
         "(s = s0 \<and> ch = ch0) \<or> (\<exists>y\<in>set xs. s = cand_score c y \<and> ch = cand_chord c y)"
      by blast
    have "fold (cand_step c) (x # xs) (Fin s0, Some ch0) = (Fin s, Some ch)"
      using step h(1) by simp
    moreover have "\<forall>y\<in>set (x # xs). cand_score c y \<le> s" using False h(2,3) by simp
    moreover have "(s = s0 \<and> ch = ch0) \<or> (\<exists>y\<in>set (x # xs). s = cand_score c y \<and> ch = cand_chord c y)"
      using h(4) by auto
    ultimately show ?thesis using h(2) by blast
  qed
qed

lemma fold_best_init:
  assumes "xs \<noteq> []"
  shows "\<exists>s ch x. fold (cand_step c) xs (NInf, None) = (Fin s, Some ch)
      \<and> (\<forall>y\<in>set xs. cand_score c y \<le> s) \<and> x \<in> set xs \<and> s = cand_score c x \<and> ch = cand_chord c x"
proof -
  from assms obtain x xs' where xs: "xs = x # xs'" by (cases xs) auto
  from fold_best_from[of c xs' "cand_score c x" "cand_chord c x"] obtain s ch where
    h: "fold (cand_step c) xs' (Fin (cand_score c x), Some (cand_chord c x)) = (Fin s, Some ch)"
       "cand_score c x \<le> s" "\<forall>y\<in>set xs'. cand_score c y \<le> s"
       "(s = cand_score c x \<and> ch = cand_chord c x) \<or> (\<exists>y\<in>set xs'. s = cand_score c y \<and> ch = cand_chord c y)"
    by blast
  have first: "cand_step c x (NInf, None) = (Fin (cand_score c x), Some (cand_chord c x))"
    by (simp add: recognize_step_cand jgt_def)
  have "fold (cand_step c) xs (NInf, None) = (Fin s, Some ch)"
    using first h(1) unfolding xs by simp
  moreover have "\<forall>y\<in>set xs. cand_score c y \<le> s" using h(2,3) unfolding xs by simp
  moreover have "\<exists>y\<in>set xs. s = cand_score c y \<and> ch = cand_chord c y"
    using h(4) unfolding xs by auto
  ultimately show ?thesis by blast
qed

lemma candidates_set:
  "set candidates = {x. fst x < 12 \<and> snd x \<in> set CHORD_TEMPLATES}"
  by (auto simp: candidates_def)

lemma candidates_nonempty: "candidates \<noteq> []"
  by (simp add: candidates_def CHORD_TEMPLATES_def upt_rec)

lemma recognize_loop_best:
  "\<exists>s ch rootPc type intervals.
     recognize_loop c = (Fin s, Some ch)
     \<and> rootPc < 12 \<and> (type, intervals) \<in> set CHORD_TEMPLATES
     \<and> s = matchTemplate c rootPc intervals
     \<and> ch = makeChord rootPc type intervals s
     \<and> (\<forall>r < 12. \<forall>(t, ints) \<in> set CHORD_TEMPLATES. matchTemplate c r ints \<le> s)"
proof -
  from fold_best_init[OF candidates_nonempty, of c] obtain s ch x where
    h: "recognize_loop c = (Fin s, Some ch)" "\<forall>y\<in>set candidates. cand_score c y \<le> s"
       "x \<in> set candidates" "s = cand_score c x" "ch = cand_chord c x"
    unfolding recognize_loop_flat by blast
  obtain r t i where x: "x = (r, t, i)" by (cases x) auto
  have "\<forall>r < 12. \<forall>(t, ints) \<in> set CHORD_TEMPLATES. matchTemplate c r ints \<le> s"
    using h(2) by (auto simp: candidates_set cand_score_def)
  then show ?thesis
    using h x by (auto simp: candidates_set cand_score_def cand_chord_def)
qed


lemma penalty_fold_le:
  "\<forall>i\<in>set xs. 0 \<le> c ! i \<Longrightarrow>
   fold (\<lambda>i score. if P i then score - c ! i * 0.3 else score) xs (s0::real) \<le> s0"
proof (induction xs arbitrary: s0)
  case Nil
  then show ?case by simp
next
  case (Cons x xs)
  have "fold (\<lambda>i score. if P i then score - c ! i * 0.3 else score) xs
          (if P x then s0 - c ! x * 0.3 else s0) \<le> (if P x then s0 - c ! x * 0.3 else s0)"
    using Cons.IH Cons.prems by simp
  also have "\<dots> \<le> s0" using Cons.prems by simp
  finally show ?case by simp
qed

lemma reward_fold_le:
  "\<forall>k<12. c ! k \<le> m \<Longrightarrow>
   fold (\<lambda>interval score. score + c ! ((r + interval) mod 12)) ints (s0::real)
     \<le> s0 + real (length ints) * m"
proof (induction ints arbitrary: s0)
  case Nil
  then show ?case by simp
next
  case (Cons x xs)
  have "c ! ((r + x) mod 12) \<le> m" using Cons.prems by simp
  moreover have "fold (\<lambda>interval score. score + c ! ((r + interval) mod 12)) xs (s0 + c ! ((r + x) mod 12))
     \<le> (s0 + c ! ((r + x) mod 12)) + real (length xs) * m"
    using Cons.IH Cons.prems by blast
  ultimately show ?case by (simp add: algebra_simps)
qed

lemma matchTemplate_le:
  assumes len: "length c = 12" and rng: "\<forall>x\<in>set c. 0 \<le> x \<and> x \<le> m"
    and tpl: "(t, ints) \<in> set CHORD_TEMPLATES"
  shows "matchTemplate c r ints \<le> 3 * m"
proof -
  have in_rng: "\<forall>k<12. 0 \<le> c ! k \<and> c ! k \<le> m"
    using len rng by (metis nth_mem)
  have l3: "length ints = 3" using tpl by (auto simp: CHORD_TEMPLATES_def)
  have "matchTemplate c r ints
      \<le> fold (\<lambda>interval score. score + c ! ((r + interval) mod 12)) ints 0"
    unfolding matchTemplate_def Let_def
    by (rule penalty_fold_le) (use in_rng in simp)
  also have "\<dots> \<le> 0 + real (length ints) * m"
    by (rule reward_fold_le) (use in_rng in simp)
  finally show ?thesis using l3 by simp
qed

lemma fold_keep:
  "\<forall>x\<in>set xs. cand_score c x \<le> s0 \<Longrightarrow>
   fold (cand_step c) xs (Fin s0, ch0) = (Fin s0, ch0)"
proof (induction xs)
  case Nil
  then show ?case by simp
next
  case (Cons x xs)
  then have "cand_step c x (Fin s0, ch0) = (Fin s0, ch0)"
    by (simp add: recognize_step_cand jgt_def)
  then show ?case using Cons by simp
qed

lemma upt_12: "[0..<12] = [0, 1, 2, 3, 4, 5, 6, 7, 8, 9, 10, 11]"
  by code_simp

lemma candidates_first: "candidates = (0, ''major'', [0, 4, 7]) # tl candidates"
  by (simp add: candidates_def CHORD_TEMPLATES_def upt_12)

lemma first_candidate_wins:
  assumes len: "length c = 12" and rng: "\<forall>x\<in>set c. 0 \<le> x \<and> x \<le> m"
    and first: "matchTemplate c 0 [0, 4, 7] = 3 * m"
  shows "recognize_loop c = (Fin (3 * m), Some (makeChord 0 ''major'' [0, 4, 7] (3 * m)))"
proof -
  have step: "cand_step c (0, ''major'', [0, 4, 7]) (NInf, None)
      = (Fin (3 * m), Some (makeChord 0 ''major'' [0, 4, 7] (3 * m)))"
    using first by (simp add: recognize_step_cand jgt_def cand_score_def cand_chord_def)
  have "\<forall>x\<in>set (tl candidates). cand_score c x \<le> 3 * m"
  proof
    fix x assume "x \<in> set (tl candidates)"
    then have "x \<in> set candidates" by (metis list.set_sel(2) candidates_nonempty)
    then have "snd x \<in> set CHORD_TEMPLATES" by (simp add: candidates_set)
    then have "(fst (snd x), snd (snd x)) \<in> set CHORD_TEMPLATES" by simp
    from matchTemplate_le[OF len rng this] show "cand_score c x \<le> 3 * m"
      by (simp add: cand_score_def)
  qed
  then have "fold (cand_step c) (tl candidates)
       (Fin (3 * m), Some (makeChord 0 ''major'' [0, 4, 7] (3 * m)))
     = (Fin (3 * m), Some (makeChord 0 ''major'' [0, 4, 7] (3 * m)))"
    by (rule fold_keep)
  then have "fold (cand_step c) ((0, ''major'', [0, 4, 7]) # tl candidates) (NInf, None)
     = (Fin (3 * m), Some (makeChord 0 ''major'' [0, 4, 7] (3 * m)))"
    using step by simp
  then show ?thesis using candidates_first by (simp add: recognize_loop_flat)
qed

lemma makeChord_C_major:
  "makeChord 0 ''major'' [0, 4, 7] s =
     \<lparr>chord_root = ''C'', chord_type = ''major'', chord_name = ''C'',
      chord_notes = [''C'', ''E'', ''G''], chord_confidence = min (s / 3) 1\<rparr>"
  by (simp add: makeChord_def formatChordType_def NOTE_NAMES_def Let_def)

lemma matchTemplate_zero: "matchTemplate (replicate 12 0) 0 [0, 4, 7] = 0"
  by (simp add: matchTemplate_def upt_12)

lemma matchTemplate_two:
  "matchTemplate [2, 0, 0, 0, 2, 0, 0, 2, 0, 0, 0, 0] 0 [0, 4, 7] = 6"
  by (simp add: matchTemplate_def upt_12)

lemma list_12:
  assumes "length (c :: real list) = 12"
  shows "c = [c ! 0, c ! 1, c ! 2, c ! 3, c ! 4, c ! 5, c ! 6, c ! 7, c ! 8, c ! 9, c ! 10, c ! 11]"
  by (rule nth_equalityI) (use assms in \<open>auto simp: nth_Cons' less_Suc_eq numeral_eq_Suc\<close>)

lemma major_scores_sum:
  "matchTemplate [c0, c1, c2, c3, c4, c5, c6, c7, c8, c9, c10, c11] 0 [0, 4, 7]
   + matchTemplate [c0, c1, c2, c3, c4, c5, c6, c7, c8, c9, c10, c11] 1 [0, 4, 7]
   + matchTemplate [c0, c1, c2, c3, c4, c5, c6, c7, c8, c9, c10, c11] 2 [0, 4, 7]
   + matchTemplate [c0, c1, c2, c3, c4, c5, c6, c7, c8, c9, c10, c11] 3 [0, 4, 7]
   + matchTemplate [c0, c1, c2, c3, c4, c5, c6, c7, c8, c9, c10, c11] 4 [0, 4, 7]
   + matchTemplate [c0, c1, c2, c3, c4, c5, c6, c7, c8, c9, c10, c11] 5 [0, 4, 7]
   + matchTemplate [c0, c1, c2, c3, c4, c5, c6, c7, c8, c9, c10, c11] 6 [0, 4, 7]
   + matchTemplate [c0, c1, c2, c3, c4, c5, c6, c7, c8, c9, c10, c11] 7 [0, 4, 7]
   + matchTemplate [c0, c1, c2, c3, c4, c5, c6, c7, c8, c9, c10, c11] 8 [0, 4, 7]
   + matchTemplate [c0, c1, c2, c3, c4, c5, c6, c7, c8, c9, c10, c11] 9 [0, 4, 7]
   + matchTemplate [c0, c1, c2, c3, c4, c5, c6, c7, c8, c9, c10, c11] 10 [0, 4, 7]
   + matchTemplate [c0, c1, c2, c3, c4, c5, c6, c7, c8, c9, c10, c11] 11 [0, 4, 7]
   = 0.3 * (c0 + c1 + c2 + c3 + c4 + c5 + c6 + c7 + c8 + c9 + c10 + c11)"
  by (simp add: matchTemplate_def upt_12)

lemma major_total_eq:
  assumes len: "length c = 12"
  shows "major_total c = 0.3 * (c ! 0 + c ! 1 + c ! 2 + c ! 3 + c ! 4 + c ! 5 + c ! 6 + c ! 7
            + c ! 8 + c ! 9 + c ! 10 + c ! 11)"
proof -
  define l where "l = [c ! 0, c ! 1, c ! 2, c ! 3, c ! 4, c ! 5, c ! 6, c ! 7, c ! 8, c ! 9, c ! 10, c ! 11]"
  have cl: "c = l" unfolding l_def using len by (rule list_12)
  have "major_total l = 0.3 * (c ! 0 + c ! 1 + c ! 2 + c ! 3 + c ! 4 + c ! 5 + c ! 6 + c ! 7
            + c ! 8 + c ! 9 + c ! 10 + c ! 11)"
    unfolding l_def major_total_def by (rule major_scores_sum)
  then show ?thesis unfolding cl[symmetric] .
qed

lemma best_score_nonneg:
  assumes len: "length c = 12" and nn: "\<forall>x\<in>set c. 0 \<le> x"
    and best: "\<forall>r<12. \<forall>(t, ints)\<in>set CHORD_TEMPLATES. matchTemplate c r ints \<le> s"
  shows "0 \<le> s"
proof -
  have major: "(''major'', [0, 4, 7]) \<in> set CHORD_TEMPLATES" by (simp add: CHORD_TEMPLATES_def)
  have le: "matchTemplate c r [0, 4, 7] \<le> s" if "r < 12" for r
  proof -
    from best that have "\<forall>(t, ints)\<in>set CHORD_TEMPLATES. matchTemplate c r ints \<le> s" by blast
    from bspec[OF this major] show ?thesis by simp
  qed
  have el: "0 \<le> c ! k" if "k < 12" for k using nn len that by simp
  have "0 \<le> 0.3 * (c ! 0 + c ! 1 + c ! 2 + c ! 3 + c ! 4 + c ! 5 + c ! 6 + c ! 7 + c ! 8
          + c ! 9 + c ! 10 + c ! 11)"
    using el[of 0] el[of 1] el[of 2] el[of 3] el[of 4] el[of 5] el[of 6] el[of 7] el[of 8]
      el[of 9] el[of 10] el[of 11] by simp
  also have "\<dots> = major_total c" using major_total_eq[OF len] by simp
  also have "\<dots> \<le> 12 * s"
    unfolding major_total_def
    using le[of 0] le[of 1] le[of 2] le[of 3] le[of 4] le[of 5] le[of 6] le[of 7] le[of 8]
      le[of 9] le[of 10] le[of 11] by linarith
  finally show ?thesis by simp
qed

text \<open>
  Claim C1, as amended. For every 12-element chromagram the recognizer returns a chord
  whose confidence is \<open>min (score / 3) 1\<close>, where \<open>score\<close> is the best template-match
  score, the final value of \<open>bestScore\<close>: the confidence is clamped from above and never
  exceeds 1. It is not clamped from below. When all chromagram values lie in \<open>[0, 1]\<close>,
  as \<open>calculateChromagram\<close> produces them, the score lies between 0 and 3 and the
  confidence equals \<open>score / 3\<close>, a number in \<open>[0, 1]\<close>.
\<close>

theorem recognize_confidence_clamped:
  assumes "length c = 12"
  shows "\<exists>s ch. recognize_loop c = (Fin s, Some ch) \<and> recognize c = Some ch
           \<and> (\<exists>r<12. \<exists>(t, ints)\<in>set CHORD_TEMPLATES. s = matchTemplate c r ints)
           \<and> (\<forall>r<12. \<forall>(t, ints)\<in>set CHORD_TEMPLATES. matchTemplate c r ints \<le> s)
           \<and> chord_confidence ch = min (s / 3) 1
           \<and> chord_confidence ch \<le> 1
           \<and> ((\<forall>x\<in>set c. 0 \<le> x \<and> x \<le> 1)
                \<longrightarrow> chord_confidence ch = s / 3 \<and> 0 \<le> chord_confidence ch)"
proof -
  from recognize_loop_best[of c] obtain s ch r t ints where
    h: "recognize_loop c = (Fin s, Some ch)" "r < 12" "(t, ints) \<in> set CHORD_TEMPLATES"
       "s = matchTemplate c r ints" "ch = makeChord r t ints s"
       "\<forall>r<12. \<forall>(t, ints)\<in>set CHORD_TEMPLATES. matchTemplate c r ints \<le> s"
    by blast
  have conf: "chord_confidence ch = min (s / 3) 1"
    using h(5) by (simp add: makeChord_def Let_def)
  have "(\<forall>x\<in>set c. 0 \<le> x \<and> x \<le> 1) \<longrightarrow> s \<le> 3"
    using matchTemplate_le[OF assms _ h(3), of 1 r] h(4) by auto
  moreover have "(\<forall>x\<in>set c. 0 \<le> x \<and> x \<le> 1) \<longrightarrow> 0 \<le> s"
    using best_score_nonneg[OF assms _ h(6)] by blast
  ultimately have "(\<forall>x\<in>set c. 0 \<le> x \<and> x \<le> 1)
      \<longrightarrow> chord_confidence ch = s / 3 \<and> 0 \<le> chord_confidence ch"
    using conf by auto
  moreover have "\<exists>r<12. \<exists>(t, ints)\<in>set CHORD_TEMPLATES. s = matchTemplate c r ints"
    using h(2,3,4) by blast
  moreover have "recognize c = Some ch" using h(1) by (simp add: recognize_def)
  ultimately show ?thesis using h(1,6) conf by auto
qed

theorem recognize_confidence_clamped_witness:
  "length [1, 0, 0, 0, 1, 0, 0, 1, 0, 0, 0, 0 :: real] = 12
   \<and> list_all (\<lambda>x. 0 \<le> x \<and> x \<le> 1) [1, 0, 0, 0, 1, 0, 0, 1, 0, 0, 0, 0 :: real]
   \<and> (\<exists>s ch. recognize_loop [1, 0, 0, 0, 1, 0, 0, 1, 0, 0, 0, 0] = (Fin s, Some ch)
           \<and> chord_confidence ch = s / 3 \<and> 0 \<le> chord_confidence ch
           \<and> chord_confidence ch \<le> 1)"
proof -
  have rng: "\<forall>x\<in>set [1, 0, 0, 0, 1, 0, 0, 1, 0, 0, 0, 0 :: real]. 0 \<le> x \<and> x \<le> 1"
    by simp
  from recognize_confidence_clamped [of "[1, 0, 0, 0, 1, 0, 0, 1, 0, 0, 0, 0]"] rng
  obtain s ch where
    "recognize_loop [1, 0, 0, 0, 1, 0, 0, 1, 0, 0, 0, 0] = (Fin s, Some ch)"
    "chord_confidence ch = s / 3" "chord_confidence ch \<le> 1" "0 \<le> chord_confidence ch"
    by auto
  then show ?thesis using rng by auto
qed

lemma confidence_le_1: "recognize c = Some ch \<Longrightarrow> chord_confidence ch \<le> 1"
proof -
  assume r: "recognize c = Some ch"
  from recognize_loop_best[of c] obtain s rootPc type intervals where
    "recognize_loop c = (Fin s, Some (makeChord rootPc type intervals s))" by blast
  then have "ch = makeChord rootPc type intervals s" using r by (simp add: recognize_def)
  then show ?thesis by (simp add: makeChord_def Let_def)
qed

text \<open>
  Claim C1 as stated fails. On the array with the value 2 at C, E and G the best score is
  6 and the confidence is 1, not \<open>6 / 3\<close>; and no input at all gives a confidence above 1.
\<close>

theorem recognize_unclamped_counterexample:
  "recognize_loop [2, 0, 0, 0, 2, 0, 0, 2, 0, 0, 0, 0] =
     (Fin 6, Some \<lparr>chord_root = ''C'', chord_type = ''major'', chord_name = ''C'',
                  chord_notes = [''C'', ''E'', ''G''], chord_confidence = 1\<rparr>)
   \<and> (6::real) / 3 \<noteq> 1
   \<and> \<not> (\<exists>c ch. recognize c = Some ch \<and> 1 < chord_confidence ch)"
proof -
  have "\<not> (\<exists>c ch. recognize c = Some ch \<and> 1 < chord_confidence ch)"
    using confidence_le_1 by fastforce
  then show ?thesis
    using first_candidate_wins [of "[2, 0, 0, 0, 2, 0, 0, 2, 0, 0, 0, 0]" 2]
    by (simp add: matchTemplate_two makeChord_C_major)
qed

text \<open>The confidence is not clamped from below: it is negative on an array of negative values.\<close>

lemma recognize_negative_confidence:
  "map_option chord_confidence (recognize (replicate 12 (- 1))) = Some (- (1 / 10))"
  by code_simp

text \<open>
  Claim C9. For every 12-element chromagram the recognizer returns a chord: the first
  template score is greater than the initial \<open>-Infinity\<close>, so \<open>bestChord\<close> is set. On the
  all-zero chromagram the result is C major, the first candidate, with confidence 0.
\<close>

theorem recognize_never_none:
  "length c = 12 \<Longrightarrow>
   recognize c \<noteq> None
   \<and> recognize (replicate 12 0) =
       Some \<lparr>chord_root = ''C'', chord_type = ''major'', chord_name = ''C'',
             chord_notes = [''C'', ''E'', ''G''], chord_confidence = 0\<rparr>"
proof
  from recognize_loop_best[of c] show "recognize c \<noteq> None"
    by (auto simp: recognize_def)
next
  show "recognize (replicate 12 0) =
       Some \<lparr>chord_root = ''C'', chord_type = ''major'', chord_name = ''C'',
             chord_notes = [''C'', ''E'', ''G''], chord_confidence = 0\<rparr>"
    using first_candidate_wins [of "replicate 12 0" 0]
    by (simp add: matchTemplate_zero makeChord_C_major recognize_def)
qed

theorem recognize_never_none_witness:
  "length [0, 1, 0, 0, 0, 0, 1, 0, 0, 1, 0, 0 :: real] = 12
   \<and> recognize [0, 1, 0, 0, 0, 0, 1, 0, 0, 1, 0, 0] \<noteq> None"
  using recognize_never_none [of "[0, 1, 0, 0, 0, 0, 1, 0, 0, 1, 0, 0]"] by simp

section \<open>Properties of the note-name conversion\<close>

lemma indexOf_None: "indexOf xs x = None \<longleftrightarrow> x \<notin> set xs"
  by (induction xs) auto

lemma indexOf_nth: "distinct xs \<Longrightarrow> k < length xs \<Longrightarrow> indexOf xs (xs ! k) = Some k"
proof (induction xs arbitrary: k)
  case Nil
  then show ?case by simp
next
  case (Cons y ys)
  show ?case
  proof (cases k)
    case 0
    then show ?thesis by simp
  next
    case (Suc j)
    then have "ys ! j \<noteq> y" using Cons.prems by auto
    then show ?thesis using Suc Cons by auto
  qed
qed

lemma digit_char: "n < 10 \<Longrightarrow> digit_or_minus (char_of (48 + n :: nat))"
  unfolding digit_or_minus_def by (simp add: of_char_of)

lemma digits_chars: "list_all digit_or_minus (digits n)"
proof (induction n rule: digits.induct)
  case (1 n)
  show ?case
  proof (cases "n < 10")
    case True
    then show ?thesis by (subst digits.simps) (simp add: digit_char)
  next
    case False
    then show ?thesis using 1 by (subst digits.simps) (simp add: digit_char)
  qed
qed

lemma digits_nonempty: "digits n \<noteq> []"
  by (subst digits.simps) simp

lemma digits_long: "10 \<le> n \<Longrightarrow> 2 \<le> length (digits n)"
  using digits_nonempty[of "n div 10"] by (subst digits.simps) (cases "digits (n div 10)"; simp)

lemma show_int_chars: "list_all digit_or_minus (show_int i)"
  by (simp add: show_int_def digits_chars) (simp add: digit_or_minus_def)

lemma show_int_long: "i < 0 \<or> 10 \<le> i \<Longrightarrow> 2 \<le> length (show_int i)"
  using digits_nonempty[of "nat (- i)"] digits_long[of "nat i"]
  by (auto simp: show_int_def Suc_le_eq)

lemma note_names_last: "nm \<in> set NOTE_NAMES \<Longrightarrow> nm \<noteq> [] \<and> \<not> digit_or_minus (last nm)"
  by (auto simp: NOTE_NAMES_def digit_or_minus_def)

lemma noteToFrequency_long_octave:
  assumes nm: "nm \<in> set NOTE_NAMES" and oct: "octave < 0 \<or> 10 \<le> octave"
  shows "noteToFrequency (nm @ show_int octave) = Inl (InvalidNoteFormat (nm @ show_int octave))"
proof -
  let ?s = "show_int octave"
  have len: "2 \<le> length ?s" using oct by (rule show_int_long)
  then have ne: "?s \<noteq> []" and bne: "butlast ?s \<noteq> []"
    by (auto simp: Suc_le_eq dest!: arg_cong[where f=length])
  have "list_all digit_or_minus (butlast ?s)"
    using show_int_chars[of octave] by (auto simp: list_all_iff dest: in_set_butlastD)
  then have "digit_or_minus (last (butlast ?s))"
    using bne by (auto simp: list_all_iff)
  moreover have "butlast (nm @ ?s) = nm @ butlast ?s" using ne by (simp add: butlast_append)
  moreover have "last (nm @ butlast ?s) = last (butlast ?s)" using bne by simp
  ultimately have "butlast (nm @ ?s) \<notin> set NOTE_NAMES"
    using note_names_last[of "butlast (nm @ ?s)"] by auto
  then have "indexOf NOTE_NAMES (butlast (nm @ ?s)) = None" by (simp add: indexOf_None)
  then show ?thesis by (simp add: noteToFrequency_def)
qed

lemma show_int_10: "show_int 10 = ''10''" by code_simp
lemma show_int_m1: "show_int (- 1) = ''-1''" by code_simp

lemma frequencyToNote_A10: "frequencyToNote 28160 = ''A10''"
proof -
  have "log 2 64 = 6" using log_pow_cancel[of 2 6] by simp
  then show ?thesis
    by (simp add: frequencyToNote_def js_rem_def NOTE_NAMES_def show_int_10)
qed

lemma log2_bounds_24:
  assumes a: "0 < (a::real)" and lo: "2 powr p \<le> a ^ 24" and hi: "a ^ 24 < 2 powr q"
  shows "p / 2 \<le> 12 * log 2 a \<and> 12 * log 2 a < q / 2"
proof -
  have l: "log 2 (a ^ 24) = 24 * log 2 a" using a by (simp add: log_nat_power)
  have "p \<le> log 2 (a ^ 24)" using lo a by (simp add: le_log_iff)
  moreover have "log 2 (a ^ 24) < q" using hi a by (simp add: log_less_iff)
  ultimately show ?thesis using l by simp
qed

lemma frequencyToNote_Cm1: "frequencyToNote (33 / 4) = ''C-1''"
proof -
  have p1: "(2::real) powr (- 139) = 1 / 2 ^ 139"
    by (simp add: powr_minus_divide powr_realpow[symmetric])
  have p2: "(2::real) powr (- 137) = 1 / 2 ^ 137"
    by (simp add: powr_minus_divide powr_realpow[symmetric])
  have "(- 139) / 2 \<le> 12 * log 2 (3 / 160 :: real) \<and> 12 * log 2 (3 / 160 :: real) < (- 137) / 2"
    by (rule log2_bounds_24) (simp_all add: p1 p2 power_divide)
  then have "round (12 * log 2 (3 / 160 :: real)) = - 69"
    unfolding round_def by (simp add: floor_eq_iff)
  then show ?thesis
    by (simp add: frequencyToNote_def js_rem_def NOTE_NAMES_def show_int_m1)
qed

lemma distinct_NOTE_NAMES: "distinct NOTE_NAMES"
  by (simp add: NOTE_NAMES_def)

lemma length_NOTE_NAMES: "length NOTE_NAMES = 12"
  by (simp add: NOTE_NAMES_def)

lemma show_int_digit: "0 \<le> i \<Longrightarrow> i < 10 \<Longrightarrow> show_int i = [char_of (48 + nat i)]"
  by (simp add: show_int_def digits.simps)

lemma parseDigit_digit: "n < 10 \<Longrightarrow> parseDigit (char_of (48 + n)) = Some n"
  by (simp add: parseDigit_def of_char_of Let_def)

lemma noteToFrequency_of_index:
  assumes n: "12 \<le> n" "n \<le> 131"
  shows "noteToFrequency (NOTE_NAMES ! nat (n mod 12) @ show_int (n div 12 - 1))
           = Inr (440 * 2 powr (real_of_int (n - 69) / 12))"
proof -
  let ?k = "nat (n mod 12)" and ?o = "n div 12 - 1"
  have o: "0 \<le> ?o" "?o < 10" using n by auto
  have k: "?k < 12" by simp
  have sh: "show_int ?o = [char_of (48 + nat ?o)]" using o by (rule show_int_digit)
  have idx: "indexOf NOTE_NAMES (NOTE_NAMES ! ?k) = Some ?k"
    using distinct_NOTE_NAMES k by (simp add: indexOf_nth length_NOTE_NAMES)
  have pd: "parseDigit (char_of (48 + nat ?o)) = Some (nat ?o)"
    using o by (intro parseDigit_digit) simp
  have pos: "0 < n div 12" using n by simp
  have "n mod 12 + n div 12 * 12 = n" by simp
  from arg_cong[OF this, of real_of_int]
  have re: "real_of_int (n mod 12) + real_of_int (n div 12) * 12 = real_of_int n"
    by (simp only: of_int_add of_int_mult of_int_numeral)
  show ?thesis
    unfolding noteToFrequency_def sh using pos re by (simp add: idx pd Let_def)
qed

lemma frequencyToNote_of_index:
  assumes "0 < f" and "0 \<le> round (12 * log 2 (f / 440)) + 69"
  shows "frequencyToNote f =
     (let n = round (12 * log 2 (f / 440)) + 69
      in NOTE_NAMES ! nat (n mod 12) @ show_int (n div 12 - 1))"
  using assms by (simp add: frequencyToNote_def js_rem_def Let_def)

text \<open>
  Claim C8. For every frequency between 27.5 Hz and 14080 Hz, a range that contains the
  detector's default range from 50 Hz to 5000 Hz, \<open>noteToFrequency\<close> succeeds on the
  result of \<open>frequencyToNote\<close> and returns the frequency of the nearest semitone, which
  is within a factor \<open>2 powr (1 / 12)\<close>, one equal-tempered semitone, of the original.
\<close>

theorem note_round_trip:
  assumes lo: "27.5 \<le> f" and hi: "f \<le> 14080"
  shows "\<exists>g. noteToFrequency (frequencyToNote f) = Inr g
           \<and> g = 440 * 2 powr (real_of_int (round (12 * log 2 (f / 440))) / 12)
           \<and> g \<le> f * 2 powr (1 / 12) \<and> f \<le> g * 2 powr (1 / 12)"
proof -
  define s where "s = 12 * log 2 (f / 440)"
  define n where "n = round s + 69"
  have fpos: "0 < f" using lo by simp
  have p1: "(2::real) powr (- 4) = 1 / 16"
    by (simp add: powr_minus_divide powr_realpow[symmetric])
  have p2: "(2::real) powr 5 = 32"
    by (simp add: powr_realpow[symmetric])
  have "(2::real) powr (- 4) \<le> f / 440" using lo by (simp add: p1)
  then have l1: "- 4 \<le> log 2 (f / 440)" using fpos by (simp add: le_log_iff)
  have "f / 440 \<le> (2::real) powr 5" using hi by (simp add: p2)
  then have l2: "log 2 (f / 440) \<le> 5" using fpos by (simp add: log_le_iff)
  have s_rng: "- 48 \<le> s" "s \<le> 60" using l1 l2 by (simp_all add: s_def)
  have "- 48 \<le> round s" "round s \<le> 60"
    using s_rng unfolding round_def by (simp_all add: le_floor_iff floor_le_iff)
  then have n_rng: "12 \<le> n" "n \<le> 131" by (simp_all add: n_def)
  have ftn: "frequencyToNote f = NOTE_NAMES ! nat (n mod 12) @ show_int (n div 12 - 1)"
    using frequencyToNote_of_index[OF fpos] n_rng by (simp add: n_def s_def Let_def)
  have ntf: "noteToFrequency (frequencyToNote f) = Inr (440 * 2 powr (real_of_int (round s) / 12))"
    unfolding ftn using noteToFrequency_of_index[OF n_rng] by (simp add: n_def)
  have f_eq: "f = 440 * 2 powr (s / 12)"
    using fpos by (simp add: s_def powr_log_cancel)
  have d: "\<bar>real_of_int (round s) - s\<bar> \<le> 1 / 2" by (rule of_int_round_abs_le)
  have up: "2 powr (real_of_int (round s) / 12) \<le> 2 powr (s / 12) * 2 powr (1 / 12)"
  proof -
    have "real_of_int (round s) / 12 \<le> s / 12 + 1 / 12" using d by linarith
    then have "(2::real) powr (real_of_int (round s) / 12) \<le> 2 powr (s / 12 + 1 / 12)"
      by simp
    then show ?thesis by (simp add: powr_add)
  qed
  have down: "2 powr (s / 12) \<le> 2 powr (real_of_int (round s) / 12) * 2 powr (1 / 12)"
  proof -
    have "s / 12 \<le> real_of_int (round s) / 12 + 1 / 12" using d by linarith
    then have "(2::real) powr (s / 12) \<le> 2 powr (real_of_int (round s) / 12 + 1 / 12)"
      by simp
    then show ?thesis by (simp add: powr_add)
  qed
  show ?thesis
    apply (rule exI[of _ "440 * 2 powr (real_of_int (round s) / 12)"])
    using ntf up down by (simp add: f_eq[symmetric] s_def[symmetric]) (simp add: f_eq)
qed

theorem note_round_trip_witness:
  "(27.5 :: real) \<le> 440 \<and> (440 :: real) \<le> 14080
   \<and> (\<exists>g. noteToFrequency (frequencyToNote 440) = Inr g
          \<and> g \<le> 440 * 2 powr (1 / 12) \<and> 440 \<le> g * 2 powr (1 / 12))"
  using note_round_trip [of 440] by auto

text \<open>
  Claim C10. \<open>noteToFrequency\<close> reads the octave from the last character only. For a
  note name followed by an octave that is negative or has two or more digits, the rest of
  the string is not a note name and the call throws the invalid-note-format error.
  \<open>frequencyToNote\<close> produces such strings: \<open>A10\<close> at 28160 Hz and \<open>C-1\<close> at 8.25 Hz.
\<close>

theorem noteToFrequency_multichar_octave:
  assumes "nm \<in> set NOTE_NAMES" and "octave < 0 \<or> 10 \<le> octave"
  shows "noteToFrequency (nm @ show_int octave) = Inl (InvalidNoteFormat (nm @ show_int octave))
    \<and> frequencyToNote 28160 = ''A10''
    \<and> noteToFrequency ''A10'' = Inl (InvalidNoteFormat ''A10'')
    \<and> frequencyToNote (33 / 4) = ''C-1''
    \<and> noteToFrequency ''C-1'' = Inl (InvalidNoteFormat ''C-1'')"
proof -
  have a10: "''A'' \<in> set NOTE_NAMES" and c: "''C'' \<in> set NOTE_NAMES"
    by (simp_all add: NOTE_NAMES_def)
  have "noteToFrequency (''A'' @ show_int 10) = Inl (InvalidNoteFormat (''A'' @ show_int 10))"
    by (rule noteToFrequency_long_octave[OF a10]) simp
  moreover have "noteToFrequency (''C'' @ show_int (- 1)) = Inl (InvalidNoteFormat (''C'' @ show_int (- 1)))"
    by (rule noteToFrequency_long_octave[OF c]) simp
  ultimately show ?thesis
    using noteToFrequency_long_octave[OF assms] frequencyToNote_A10 frequencyToNote_Cm1
    by (simp add: show_int_10 show_int_m1)
qed

theorem noteToFrequency_multichar_octave_witness:
  "''G#'' \<in> set NOTE_NAMES \<and> ((12::int) < 0 \<or> (10::int) \<le> 12)
   \<and> noteToFrequency (''G#'' @ show_int 12) = Inl (InvalidNoteFormat (''G#'' @ show_int 12))"
proof -
  have g: "''G#'' \<in> set NOTE_NAMES" by (simp add: NOTE_NAMES_def)
  have o: "(12::int) < 0 \<or> (10::int) \<le> 12" by simp
  from noteToFrequency_multichar_octave [OF g o] show ?thesis using g by simp
qed

section \<open>Configuration\<close>

text \<open>
  Claim C2 as stated fails: on the Web Audio platform the constructor accepts a
  configuration with \<open>minFrequency \<ge> maxFrequency\<close>, \<open>minBpm \<ge> maxBpm\<close> and a YIN threshold
  of 3, and stores it unchanged.
\<close>

theorem config_accepted_counterexample:
  "(5000::real) \<ge> 50 \<and> (200::real) \<ge> 100 \<and> \<not> ((3::real) < 1)
   \<and> newAudioAnalyzer webAudioChecks 44100
       \<lparr>opt_fftSize = None, opt_smoothingTimeConstant = None,
        opt_minFrequency = Some 5000, opt_maxFrequency = Some 50,
        opt_yinThreshold = Some 3, opt_enableAdvanced = None,
        opt_minBpm = Some 200, opt_maxBpm = Some 100\<rparr>
     = Inr \<lparr>contextSampleRate = 44100, analyser_fftSize = 2048,
            analyser_smoothingTimeConstant = 0.8,
            options = \<lparr>fftSize = 2048, smoothingTimeConstant = 0.8,
                       minFrequency = 5000, maxFrequency = 50, yinThreshold = 3,
                       enableAdvanced = False, minBpm = 200, maxBpm = 100\<rparr>,
            yinDetector = \<lparr>yin_sampleRate = 44100, yin_threshold = 3,
                           yin_minFrequency = 5000, yin_maxFrequency = 50\<rparr>\<rparr>"
  by (simp add: newAudioAnalyzer_def webAudioChecks_def orDefault_def newYINDetector_def Let_def)

lemma set_detection_options:
  "options (set_detection opts a) =
     (options a)\<lparr> minFrequency := orDefault (opt_minFrequency opts) (minFrequency (options a)),
                   maxFrequency := orDefault (opt_maxFrequency opts) (maxFrequency (options a)),
                   yinThreshold := orDefault (opt_yinThreshold opts) (yinThreshold (options a)),
                   enableAdvanced := orDefault (opt_enableAdvanced opts) (enableAdvanced (options a)),
                   minBpm := orDefault (opt_minBpm opts) (minBpm (options a)),
                   maxBpm := orDefault (opt_maxBpm opts) (maxBpm (options a)) \<rparr>"
  by (simp add: set_detection_def orDefault_def rebuildDetector_def Let_def split: option.splits)

text \<open>
  Claim C2, as amended. The constructor and \<open>setOptions\<close> do not validate the
  configuration. The constructor fails exactly when the analyser node of the platform
  refuses the FFT size or the smoothing constant assigned to it; otherwise it stores
  every value of \<open>minFrequency\<close>, \<open>maxFrequency\<close>, \<open>yinThreshold\<close>, \<open>minBpm\<close> and \<open>maxBpm\<close>
  as given (or its default), whatever their order or range, and builds the pitch detector
  from them. \<open>setOptions\<close> with no FFT size and no smoothing constant always succeeds and
  stores the given values in the same way.
\<close>

theorem configuration_not_validated:
  "(fftSize_ok chk (orDefault (opt_fftSize opts) 2048)
      \<and> smoothing_ok chk (orDefault (opt_smoothingTimeConstant opts) 0.8)
    \<longrightarrow> (\<exists>a. newAudioAnalyzer chk sr opts = Inr a
          \<and> minFrequency (options a) = orDefault (opt_minFrequency opts) 50
          \<and> maxFrequency (options a) = orDefault (opt_maxFrequency opts) 5000
          \<and> yinThreshold (options a) = orDefault (opt_yinThreshold opts) 0.1
          \<and> minBpm (options a) = orDefault (opt_minBpm opts) 60
          \<and> maxBpm (options a) = orDefault (opt_maxBpm opts) 180
          \<and> yinDetector a = newYINDetector sr (yinThreshold (options a))
                               (minFrequency (options a)) (maxFrequency (options a))))
   \<and> (\<not> (fftSize_ok chk (orDefault (opt_fftSize opts) 2048)
          \<and> smoothing_ok chk (orDefault (opt_smoothingTimeConstant opts) 0.8))
    \<longrightarrow> newAudioAnalyzer chk sr opts = Inl IndexSizeError)
   \<and> (opt_fftSize opts = None \<and> opt_smoothingTimeConstant opts = None
    \<longrightarrow> (\<exists>a'. setOptions chk a0 opts = Inr a'
          \<and> minFrequency (options a') = orDefault (opt_minFrequency opts) (minFrequency (options a0))
          \<and> maxFrequency (options a') = orDefault (opt_maxFrequency opts) (maxFrequency (options a0))
          \<and> yinThreshold (options a') = orDefault (opt_yinThreshold opts) (yinThreshold (options a0))
          \<and> minBpm (options a') = orDefault (opt_minBpm opts) (minBpm (options a0))
          \<and> maxBpm (options a') = orDefault (opt_maxBpm opts) (maxBpm (options a0))))"
proof (intro conjI impI)
  assume "fftSize_ok chk (orDefault (opt_fftSize opts) 2048)
      \<and> smoothing_ok chk (orDefault (opt_smoothingTimeConstant opts) 0.8)"
  then show "\<exists>a. newAudioAnalyzer chk sr opts = Inr a
          \<and> minFrequency (options a) = orDefault (opt_minFrequency opts) 50
          \<and> maxFrequency (options a) = orDefault (opt_maxFrequency opts) 5000
          \<and> yinThreshold (options a) = orDefault (opt_yinThreshold opts) 0.1
          \<and> minBpm (options a) = orDefault (opt_minBpm opts) 60
          \<and> maxBpm (options a) = orDefault (opt_maxBpm opts) 180
          \<and> yinDetector a = newYINDetector sr (yinThreshold (options a))
                               (minFrequency (options a)) (maxFrequency (options a))"
    by (simp add: newAudioAnalyzer_def Let_def)
next
  assume "\<not> (fftSize_ok chk (orDefault (opt_fftSize opts) 2048)
          \<and> smoothing_ok chk (orDefault (opt_smoothingTimeConstant opts) 0.8))"
  then show "newAudioAnalyzer chk sr opts = Inl IndexSizeError"
    by (auto simp add: newAudioAnalyzer_def Let_def)
next
  assume "opt_fftSize opts = None \<and> opt_smoothingTimeConstant opts = None"
  then have "setOptions chk a0 opts = Inr (set_detection opts a0)"
    by (simp add: setOptions_def set_fftSize_def set_smoothing_def)
  then show "\<exists>a'. setOptions chk a0 opts = Inr a'
          \<and> minFrequency (options a') = orDefault (opt_minFrequency opts) (minFrequency (options a0))
          \<and> maxFrequency (options a') = orDefault (opt_maxFrequency opts) (maxFrequency (options a0))
          \<and> yinThreshold (options a') = orDefault (opt_yinThreshold opts) (yinThreshold (options a0))
          \<and> minBpm (options a') = orDefault (opt_minBpm opts) (minBpm (options a0))
          \<and> maxBpm (options a') = orDefault (opt_maxBpm opts) (maxBpm (options a0))"
    by (simp add: set_detection_options)
qed


theorem configuration_not_validated_witness:
  "fftSize_ok webAudioChecks (orDefault None 2048)
   \<and> smoothing_ok webAudioChecks (orDefault None 0.8)
   \<and> (\<exists>a. newAudioAnalyzer webAudioChecks 44100
            \<lparr>opt_fftSize = None, opt_smoothingTimeConstant = None,
             opt_minFrequency = Some 5000, opt_maxFrequency = Some 50,
             opt_yinThreshold = Some 3, opt_enableAdvanced = None,
             opt_minBpm = Some 200, opt_maxBpm = Some 100\<rparr> = Inr a
          \<and> minFrequency (options a) = 5000 \<and> maxFrequency (options a) = 50
          \<and> yinThreshold (options a) = 3 \<and> minBpm (options a) = 200
          \<and> maxBpm (options a) = 100)"
proof -
  let ?opts = "\<lparr>opt_fftSize = None, opt_smoothingTimeConstant = None,
               opt_minFrequency = Some 5000, opt_maxFrequency = Some 50,
               opt_yinThreshold = Some 3, opt_enableAdvanced = None,
               opt_minBpm = Some 200, opt_maxBpm = Some 100\<rparr>"
  have ok: "fftSize_ok webAudioChecks (orDefault None 2048)
      \<and> smoothing_ok webAudioChecks (orDefault None 0.8)"
    by (simp add: webAudioChecks_def orDefault_def)
  then have ok': "fftSize_ok webAudioChecks (orDefault (opt_fftSize ?opts) 2048)
      \<and> smoothing_ok webAudioChecks (orDefault (opt_smoothingTimeConstant ?opts) 0.8)"
    by simp
  let ?a0 = "\<lparr>contextSampleRate = 44100, analyser_fftSize = 2048,
              analyser_smoothingTimeConstant = 0.8,
              options = \<lparr>fftSize = 2048, smoothingTimeConstant = 0.8,
                         minFrequency = 50, maxFrequency = 5000, yinThreshold = 0.1,
                         enableAdvanced = False, minBpm = 60, maxBpm = 180\<rparr>,
              yinDetector = newYINDetector 44100 0.1 50 5000\<rparr>"
  from configuration_not_validated [of webAudioChecks ?opts 44100 ?a0] ok'
  obtain a where "newAudioAnalyzer webAudioChecks 44100 ?opts = Inr a"
    "minFrequency (options a) = orDefault (opt_minFrequency ?opts) 50"
    "maxFrequency (options a) = orDefault (opt_maxFrequency ?opts) 5000"
    "yinThreshold (options a) = orDefault (opt_yinThreshold ?opts) 0.1"
    "minBpm (options a) = orDefault (opt_minBpm ?opts) 60"
    "maxBpm (options a) = orDefault (opt_maxBpm ?opts) 180"
    by blast
  then have "\<exists>a. newAudioAnalyzer webAudioChecks 44100 ?opts = Inr a
          \<and> minFrequency (options a) = 5000 \<and> maxFrequency (options a) = 50
          \<and> yinThreshold (options a) = 3 \<and> minBpm (options a) = 200
          \<and> maxBpm (options a) = 100"
    by (simp add: orDefault_def)
  then show ?thesis using ok by blast
qed

section \<open>Properties of the pitch detector\<close>

subsection \<open>The threshold search\<close>





subsection \<open>Allocation\<close>

lemma newFloat32Array_ok: "- 1 < len \<Longrightarrow> newFloat32Array len = Inr (nat \<lfloor>len\<rfloor>)"
  by (simp add: newFloat32Array_def)

lemma yin_maxLag_nonneg:
  "0 < yin_sampleRate d \<Longrightarrow> 0 < yin_minFrequency d \<Longrightarrow> 0 \<le> yin_maxLag d buffer"
  by (simp add: yin_maxLag_def)

lemma yin_detect_unfold:
  assumes "- 1 < yin_maxLag d buffer"
  shows "yin_detect d buffer =
     (let cm = yin_cmndf d buffer;
          tau = absoluteThreshold (yin_threshold d) cm (yin_minLag d) (yin_maxLag d buffer)
      in if tau = - 1 then Inr None
         else
           let frequency = jdiv (Fin (yin_sampleRate d)) (parabolicInterpolation cm tau)
           in if jlt frequency (Fin (yin_minFrequency d)) \<or> jgt frequency (Fin (yin_maxFrequency d))
              then Inr None
              else Inr (Some \<lparr> pitch_frequency = frequency,
                               pitch_confidence = jsub (Fin 1) (rd cm tau) \<rparr>))"
  using assms
  by (simp add: yin_detect_def yin_cmndf_def differenceFunction_def
      cumulativeMeanNormalizedDifference_def newFloat32Array_ok yin_maxLag_def[symmetric]
      yin_minLag_def[symmetric] Let_def)


text \<open>The pitch detector raises no exception, for a window of any length.\<close>

lemma yin_detect_total:
  assumes "0 < yin_sampleRate d" and "0 < yin_minFrequency d"
  shows "\<exists>r. yin_detect d buffer = Inr r"
proof -
  have "- 1 < yin_maxLag d buffer" using yin_maxLag_nonneg[OF assms, of buffer] by linarith
  from yin_detect_unfold[OF this] show ?thesis by (auto simp: Let_def)
qed




subsection \<open>The values of the normalized difference\<close>











lemma loop_result:
  "absoluteThreshold_loop thr cm ml tau = - 1
   \<or> (\<exists>tau0. jlt (rd cm tau0) (Fin thr)
         \<and> absoluteThreshold_loop thr cm ml tau = absoluteThreshold_descend cm ml tau0)"
proof (induction thr cm ml tau rule: absoluteThreshold_loop.induct)
  case (1 threshold cmndf maxLag tau)
  show ?case
  proof (cases "real_of_int tau < maxLag")
    case True
    show ?thesis
    proof (cases "jlt (rd cmndf tau) (Fin threshold)")
      case t: True
      then have "absoluteThreshold_loop threshold cmndf maxLag tau
          = absoluteThreshold_descend cmndf maxLag tau"
        using True by (subst absoluteThreshold_loop.simps) simp
      then show ?thesis using t by blast
    next
      case False
      then have "absoluteThreshold_loop threshold cmndf maxLag tau
          = absoluteThreshold_loop threshold cmndf maxLag (tau + 1)"
        using True by (subst absoluteThreshold_loop.simps) simp
      then show ?thesis using 1[OF True False] by simp
    qed
  next
    case False
    then show ?thesis by (subst absoluteThreshold_loop.simps) simp
  qed
qed


section \<open>Properties of the BPM detector\<close>

subsection \<open>Autocorrelation\<close>

lemma fold_add_sum_list:
  "fold (\<lambda>i s. s + f i) xs (s0::real) = s0 + sum_list (map f xs)"
  by (induction xs arbitrary: s0) simp_all




lemma sum_list_all_zero: "(\<And>x. x \<in> set xs \<Longrightarrow> f x = 0) \<Longrightarrow> sum_list (map f xs) = (0::real)"
  by (induction xs) simp_all


subsection \<open>The lag search\<close>







subsection \<open>The result of the detector\<close>

lemma bpm_detect_unfold:
  assumes "onsetCurve d ab = Inr env"
  shows "bpm_detect d ab =
     Inr \<lparr> bpm = (if snd (bpm_search (autocorrelate env) (bpm_minLag d) (bpm_maxLag d)) > 0
                  then Some (round (60 / ((real_of_int (snd (bpm_search (autocorrelate env) (bpm_minLag d) (bpm_maxLag d)))
                                             * real (hopSize_of d)) / bpm_sampleRate d)))
                  else None),
            bpm_confidence =
              min (fst (bpm_search (autocorrelate env) (bpm_minLag d) (bpm_maxLag d))
                   / (if autocorrelate env = [] \<or> autocorrelate env ! 0 = 0 then 1
                      else autocorrelate env ! 0)) 1,
            beatPositions =
              (if snd (bpm_search (autocorrelate env) (bpm_minLag d) (bpm_maxLag d)) > 0
               then detectBeatPositions (bpm_sampleRate d) env (hopSize_of d) else []) \<rparr>"
  using assms by (simp add: bpm_detect_def Let_def split: prod.splits)





subsection \<open>A click track of two clicks\<close>










text \<open>
  Claim C7 fails for the BPM detector: on a buffer shorter than one analysis window the
  number of frames is negative and the allocation of the energy envelope raises
  \<open>RangeError\<close>. Here a mono buffer of 100 samples at 44100 Hz: the window has 1764 samples,
  the hop 441, and the number of frames is \<open>-4\<close>.
\<close>

theorem bpm_detect_short_buffer:
  "bpm_detect \<lparr>bpm_sampleRate = 44100, bpm_minBpm = 60, bpm_maxBpm = 180\<rparr>
     \<lparr>ab_sampleRate = 44100, ab_length = 100, ab_channels = [replicate 100 0]\<rparr>
   = Inl RangeError"
proof -
  have f: "\<lfloor>(- 1664 :: real) / 441\<rfloor> = - 4" by (simp add: floor_eq_iff)
  show ?thesis
    by (simp add: bpm_detect_def onsetCurve_def channelData_of_def numberOfChannels_def
        getChannelData_def hopSize_of_def windowSize_of_def calculateEnergyEnvelope_def
        newFloat32Array_def f Let_def)
qed

section \<open>Degenerate input\<close>

subsection \<open>Silent input\<close>

lemma map_upt_zero: "(\<And>i. i < m \<Longrightarrow> f i = (0::real)) \<Longrightarrow> map f [0..<m] = replicate m 0"
  by (rule nth_equalityI) simp_all

lemma fold_zero_terms:
  "(\<And>j. j \<in> set xs \<Longrightarrow> f j = (0::real)) \<Longrightarrow> fold (\<lambda>j sum. sum + f j) xs 0 = 0"
  by (simp add: fold_add_sum_list sum_list_all_zero)

lemma calculateVolume_zero: "0 < n \<Longrightarrow> calculateVolume (replicate n 0) = Fin 0"
proof -
  assume n: "0 < n"
  have "fold (\<lambda>i sum. sum + replicate n (0::real) ! i * replicate n 0 ! i) [0..<n] 0 = 0"
    by (rule fold_zero_terms) simp
  then show ?thesis using n by (simp add: calculateVolume_def)
qed

lemma differenceFunction_zero:
  assumes "0 \<le> ml" and "ml \<le> real n"
  shows "differenceFunction (replicate n 0) n ml = Inr (replicate (nat \<lfloor>ml\<rfloor>) 0)"
proof -
  have "fold (\<lambda>j sum. let delta = replicate n (0::real) ! j - replicate n 0 ! (j + tau)
                        in sum + delta * delta) [0..<nat \<lceil>real n - ml\<rceil>] 0 = 0"
    if tau: "tau < nat \<lfloor>ml\<rfloor>" for tau
  proof -
    have "replicate n (0::real) ! j - replicate n 0 ! (j + tau) = 0"
      if j: "j \<in> set [0..<nat \<lceil>real n - ml\<rceil>]" for j
    proof -
      have "j < nat \<lceil>real n - ml\<rceil>" using j by simp
      then have "real j < real n - ml + 1" by linarith
      moreover have "real tau + 1 \<le> ml" using tau assms(1) by linarith
      ultimately have "j + tau < n" by linarith
      then show ?thesis by simp
    qed
    then have "fold (\<lambda>j sum. sum + (replicate n (0::real) ! j - replicate n 0 ! (j + tau))
                 * (replicate n 0 ! j - replicate n 0 ! (j + tau))) [0..<nat \<lceil>real n - ml\<rceil>] 0 = 0"
      by (intro fold_zero_terms) simp
    then show ?thesis by (simp add: Let_def)
  qed
  then have "map (\<lambda>tau. fold (\<lambda>j sum. let delta = replicate n (0::real) ! j - replicate n 0 ! (j + tau)
                        in sum + delta * delta) [0..<nat \<lceil>real n - ml\<rceil>] 0) [0..<nat \<lfloor>ml\<rfloor>]
      = replicate (nat \<lfloor>ml\<rfloor>) 0"
    by (rule map_upt_zero)
  then show ?thesis using assms(1) by (simp add: differenceFunction_def newFloat32Array_def)
qed

lemma cmndf_zero_fold:
  "\<forall>tau\<in>set xs. 0 < tau \<and> df ! tau = 0 \<Longrightarrow>
   fold (\<lambda>tau (runningSum, cmndf).
            let runningSum' = runningSum + df ! tau
            in (runningSum',
                cmndf[tau := jdiv (Fin (df ! tau)) (jdiv (Fin runningSum') (Fin (real tau)))]))
     xs (0, cm)
   = (0, fold (\<lambda>tau cmndf. cmndf[tau := NaN]) xs cm)"
  by (induction xs arbitrary: cm) (simp_all add: Let_def)

lemma fold_update_nth:
  "i < length cm \<Longrightarrow>
   fold (\<lambda>tau cmndf. cmndf[tau := v]) xs cm ! i = (if i \<in> set xs then v else cm ! i)"
  by (induction xs arbitrary: cm) (auto simp: nth_list_update)

lemma fold_update_length: "length (fold (\<lambda>tau cmndf. cmndf[tau := v]) xs cm) = length cm"
  by (induction xs arbitrary: cm) simp_all

lemma zero_cmndf_read:
  "rd (fold (\<lambda>tau cmndf. cmndf[tau := NaN]) [1..<m] ((replicate m (Fin 0))[0 := Fin 1])) t
     = (if t = 0 \<and> 0 < m then Fin 1 else NaN)"
proof -
  let ?init = "(replicate m (Fin 0))[0 := Fin 1]"
  let ?cm = "fold (\<lambda>tau cmndf. cmndf[tau := NaN]) [1..<m] ?init"
  have len: "length ?cm = m" by (simp add: fold_update_length)
  show ?thesis
  proof (cases "0 \<le> t \<and> t < int m")
    case True
    then have "nat t < m" by linarith
    then have i: "nat t < length ?init" by simp
    have rdv: "rd ?cm t = ?cm ! nat t" unfolding rd_def len using True by simp
    have nthv: "?cm ! nat t = (if nat t \<in> set [1..<m] then NaN else ?init ! nat t)"
      by (rule fold_update_nth[OF i])
    show ?thesis
    proof (cases "t = 0")
      case t: True
      then have m: "0 < m" using True by simp
      have "nat t \<notin> set [1..<m]" using t by simp
      moreover have "?init ! nat t = Fin 1" using t m by simp
      ultimately have "?cm ! nat t = Fin 1" unfolding nthv by simp
      then show ?thesis unfolding rdv using t m by simp
    next
      case False
      then have "1 \<le> nat t \<and> nat t < m" using True by linarith
      then have "nat t \<in> set [1..<m]" by simp
      then have "?cm ! nat t = NaN" unfolding nthv by simp
      then show ?thesis unfolding rdv using False by simp
    qed
  next
    case False
    then have "rd ?cm t = NaN" unfolding rd_def len by auto
    moreover have "\<not> (t = 0 \<and> 0 < m)" using False by auto
    ultimately show ?thesis by simp
  qed
qed

lemma cmndf_zero:
  assumes "0 \<le> ml"
  shows "\<exists>cm. cumulativeMeanNormalizedDifference (replicate (nat \<lfloor>ml\<rfloor>) 0) ml = Inr cm
     \<and> (\<forall>t. rd cm t = (if t = 0 \<and> 0 < nat \<lfloor>ml\<rfloor> then Fin 1 else NaN))"
proof -
  define m where "m = nat \<lfloor>ml\<rfloor>"
  have z: "\<forall>tau\<in>set [1..<m]. 0 < tau \<and> replicate m (0::real) ! tau = 0" by simp
  have nf: "newFloat32Array ml = Inr m" using assms by (simp add: newFloat32Array_def m_def)
  have eq: "cumulativeMeanNormalizedDifference (replicate m 0) ml
      = Inr (fold (\<lambda>tau cmndf. cmndf[tau := NaN]) [1..<m] ((replicate m (Fin 0))[0 := Fin 1]))"
    by (simp only: cumulativeMeanNormalizedDifference_def nf sum.case cmndf_zero_fold[OF z]
        snd_conv)
  show ?thesis unfolding m_def[symmetric] using eq zero_cmndf_read[of m] by blast
qed

lemma yin_detect_zero:
  assumes sr: "0 < yin_sampleRate d" and mf: "0 < yin_minFrequency d"
  shows "yin_detect d (replicate n 0) = Inr None"
proof -
  let ?b = "replicate n (0::real)"
  let ?ml = "yin_maxLag d ?b"
  have ml0: "0 \<le> ?ml" using yin_maxLag_nonneg[OF sr mf] .
  have mln: "?ml \<le> real n" by (simp add: yin_maxLag_def)
  from cmndf_zero[OF ml0] obtain cm where
    cm: "cumulativeMeanNormalizedDifference (replicate (nat \<lfloor>?ml\<rfloor>) 0) ?ml = Inr cm"
      "\<forall>t. rd cm t = (if t = 0 \<and> 0 < nat \<lfloor>?ml\<rfloor> then Fin 1 else NaN)"
    by blast
  have ycm: "yin_cmndf d ?b = cm"
    using differenceFunction_zero[OF ml0 mln] cm(1) by (simp add: yin_cmndf_def)
  have unf: "yin_detect d ?b =
     (let tau = absoluteThreshold (yin_threshold d) cm (yin_minLag d) ?ml
      in if tau = - 1 then Inr None
         else
           let frequency = jdiv (Fin (yin_sampleRate d)) (parabolicInterpolation cm tau)
           in if jlt frequency (Fin (yin_minFrequency d)) \<or> jgt frequency (Fin (yin_maxFrequency d))
              then Inr None
              else Inr (Some \<lparr> pitch_frequency = frequency,
                               pitch_confidence = jsub (Fin 1) (rd cm tau) \<rparr>))"
    using yin_detect_unfold[of d ?b] ml0 by (simp add: ycm Let_def)
  let ?tau = "absoluteThreshold (yin_threshold d) cm (yin_minLag d) ?ml"
  have "?tau = - 1 \<or> ?tau = 0"
  proof -
    from loop_result[of "yin_threshold d" cm ?ml "yin_minLag d"]
    consider "?tau = - 1"
      | tau0 where "jlt (rd cm tau0) (Fin (yin_threshold d))"
          "?tau = absoluteThreshold_descend cm ?ml tau0"
      by (auto simp: absoluteThreshold_def)
    then show ?thesis
    proof cases
      case 1
      then show ?thesis by simp
    next
      case 2
      have t0: "tau0 = 0" using 2(1) cm(2) by (cases "tau0 = 0") auto
      have "\<not> jlt (rd cm (0 + 1)) (rd cm 0)" using cm(2) by simp
      then have "absoluteThreshold_descend cm ?ml 0 = 0"
        by (subst absoluteThreshold_descend.simps) simp
      then show ?thesis using 2(2) t0 by simp
    qed
  qed
  then show ?thesis
  proof
    assume "?tau = - 1"
    then show ?thesis by (simp add: unf)
  next
    assume z: "?tau = 0"
    have "jdiv (Fin (yin_sampleRate d)) (parabolicInterpolation cm 0) = PInf"
      using sr by (simp add: parabolicInterpolation_def jinf_def)
    then show ?thesis using z by (simp add: unf jgt_def)
  qed
qed

lemma envelope_zero:
  assumes "0 \<le> nf"
  shows "calculateEnergyEnvelope (replicate n 0) nf ws hop = Inr (replicate (nat nf) 0)"
proof -
  have "sqrt (fold (\<lambda>j sum. sum + replicate n (0::real) ! (i * hop + j) * replicate n 0 ! (i * hop + j))
                [0..<min ws (n - i * hop)] 0 / real ws) = 0" for i
  proof -
    have "fold (\<lambda>j sum. sum + replicate n (0::real) ! (i * hop + j) * replicate n 0 ! (i * hop + j))
                [0..<min ws (n - i * hop)] 0 = 0"
      by (rule fold_zero_terms) auto
    then show ?thesis by simp
  qed
  then have "map (\<lambda>i. sqrt (fold (\<lambda>j sum. sum + replicate n (0::real) ! (i * hop + j) * replicate n 0 ! (i * hop + j))
                [0..<min ws (n - i * hop)] 0 / real ws)) [0..<nat nf] = replicate (nat nf) 0"
    by (intro map_upt_zero)
  then show ?thesis using assms
    by (simp add: calculateEnergyEnvelope_def newFloat32Array_def Let_def)
qed

lemma differentiate_zero: "differentiate (replicate m 0) = replicate m 0"
  unfolding differentiate_def by (simp add: map_upt_zero)

lemma autocorrelate_zero: "autocorrelate (replicate m 0) = replicate m 0"
proof -
  have "fold (\<lambda>i sum. sum + replicate m (0::real) ! i * replicate m 0 ! (i + lag)) [0..<m - lag] 0 = 0"
    if "lag < m" for lag
    by (rule fold_zero_terms) (use that in auto)
  then show ?thesis unfolding autocorrelate_def Let_def by (simp add: map_upt_zero)
qed

lemma bpm_search_zero: "bpm_search (replicate m 0) lo hi = (0, 0)"
proof -
  have "fold (bpm_step (replicate m 0)) xs (0, 0) = (0, 0)"
    if "\<forall>l\<in>set xs. l < int m" for xs
    using that
  proof (induction xs)
    case Nil
    then show ?case by simp
  next
    case (Cons x xs)
    have "bpm_step (replicate m 0) x (0, 0) = (0, 0)"
      using Cons.prems by (auto simp: bpm_step_def)
    then show ?case using Cons by simp
  qed
  then show ?thesis unfolding bpm_search_def by simp
qed

lemma channelData_zero:
  assumes "0 < k"
  shows "channelData_of \<lparr>ab_sampleRate = sr, ab_length = n,
            ab_channels = replicate k (replicate n 0)\<rparr> = replicate n 0"
proof (cases "1 < k")
  case True
  have "fold (\<lambda>ch sum. sum + replicate k (replicate n (0::real)) ! ch ! i) [0..<k] 0 / real k = 0"
    if "i < n" for i
  proof -
    have "fold (\<lambda>ch sum. sum + replicate k (replicate n (0::real)) ! ch ! i) [0..<k] 0 = 0"
      by (rule fold_zero_terms) (use that in auto)
    then show ?thesis by simp
  qed
  then show ?thesis using True
    by (simp add: channelData_of_def numberOfChannels_def mixChannels_def getChannelData_def
        map_upt_zero Let_def)
next
  case False
  then show ?thesis using assms
    by (simp add: channelData_of_def numberOfChannels_def getChannelData_def)
qed

lemma bpm_detect_zero:
  assumes k: "0 < k" and sr: "100 \<le> bpm_sampleRate d" and n: "windowSize_of d \<le> n"
  shows "bpm_detect d \<lparr>ab_sampleRate = sr', ab_length = n,
            ab_channels = replicate k (replicate n 0)\<rparr>
     = Inr \<lparr>bpm = None, bpm_confidence = 0, beatPositions = []\<rparr>"
proof -
  let ?ab = "\<lparr>ab_sampleRate = sr', ab_length = n, ab_channels = replicate k (replicate n 0)\<rparr>"
  define nf where "nf = \<lfloor>(real n - real (windowSize_of d)) / real (hopSize_of d)\<rfloor>"
  have "1 \<le> bpm_sampleRate d * 0.01" using sr by simp
  then have "1 \<le> \<lfloor>bpm_sampleRate d * 0.01\<rfloor>" by linarith
  then have hop: "0 < hopSize_of d" by (simp add: hopSize_of_def)
  have "0 \<le> (real n - real (windowSize_of d)) / real (hopSize_of d)" using n hop by simp
  then have nf0: "0 \<le> nf" by (simp add: nf_def)
  have oc: "onsetCurve d ?ab = Inr (replicate (nat nf) 0)"
    using envelope_zero[OF nf0, of n "windowSize_of d" "hopSize_of d"]
    by (simp add: onsetCurve_def channelData_zero[OF k] nf_def[symmetric] differentiate_zero Let_def)
  show ?thesis
    unfolding bpm_detect_unfold[OF oc] by (simp add: autocorrelate_zero bpm_search_zero)
qed

subsection \<open>The analysis of silence\<close>

lemma recognize_zero:
  "recognize (replicate 12 0) =
     Some \<lparr>chord_root = ''C'', chord_type = ''major'', chord_name = ''C'',
           chord_notes = [''C'', ''E'', ''G''], chord_confidence = 0\<rparr>"
  using first_candidate_wins [of "replicate 12 0" 0]
  by (simp add: matchTemplate_zero makeChord_C_major recognize_def)

text \<open>
  Claim C3 as stated fails: on an empty window the volume is \<open>0 / 0\<close>, which is NaN and
  not 0, and on the all-zero chromagram the chord recognizer returns C major, not none.
\<close>

theorem degenerate_input_counterexample:
  "calculateVolume [] = NaN
   \<and> recognize (replicate 12 0) =
       Some \<lparr>chord_root = ''C'', chord_type = ''major'', chord_name = ''C'',
             chord_notes = [''C'', ''E'', ''G''], chord_confidence = 0\<rparr>"
  by (simp add: calculateVolume_def recognize_zero)

text \<open>
  Claim C3, as amended. For an all-zero window of at least one sample the volume is 0.
  The pitch detector returns no pitch on every all-zero window and on the empty one. The
  BPM detector returns no BPM, confidence 0 and no beats on an all-zero buffer that holds
  at least one analysis window of samples. The chord recognizer does not return none: on
  the all-zero chromagram it returns C major with confidence 0.
\<close>

theorem silent_input:
  assumes n: "0 < n"
    and yin: "0 < yin_sampleRate yd" "0 < yin_minFrequency yd" "0 < yin_maxFrequency yd"
    and bd: "100 \<le> bpm_sampleRate bd" "bpm_minBpm bd \<noteq> 0" "bpm_maxBpm bd \<noteq> 0"
    and k: "0 < k" and w: "windowSize_of bd \<le> n"
  shows "calculateVolume (replicate n 0) = Fin 0
     \<and> yin_detect yd (replicate n 0) = Inr None
     \<and> yin_detect yd [] = Inr None
     \<and> bpm_detect bd \<lparr>ab_sampleRate = bpm_sampleRate bd, ab_length = n,
                       ab_channels = replicate k (replicate n 0)\<rparr>
         = Inr \<lparr>bpm = None, bpm_confidence = 0, beatPositions = []\<rparr>
     \<and> recognize (replicate 12 0) =
         Some \<lparr>chord_root = ''C'', chord_type = ''major'', chord_name = ''C'',
               chord_notes = [''C'', ''E'', ''G''], chord_confidence = 0\<rparr>"
proof -
  have "yin_detect yd (replicate 0 0) = Inr None" using yin(1,2) by (rule yin_detect_zero)
  then have "yin_detect yd [] = Inr None" by simp
  then show ?thesis
    using calculateVolume_zero[OF n] yin_detect_zero[OF yin(1,2), of n]
      bpm_detect_zero[OF k bd(1) w, of "bpm_sampleRate bd"] recognize_zero
    by simp
qed

theorem silent_input_witness:
  "(0::nat) < 2000 \<and> (0::real) < 44100 \<and> (0::real) < 50 \<and> (0::real) < 5000
   \<and> (100::real) \<le> 44100 \<and> (60::real) \<noteq> 0 \<and> (180::real) \<noteq> 0 \<and> (0::nat) < 1
   \<and> windowSize_of \<lparr>bpm_sampleRate = 44100, bpm_minBpm = 60, bpm_maxBpm = 180\<rparr> \<le> 2000
   \<and> calculateVolume (replicate 2000 0) = Fin 0
   \<and> yin_detect \<lparr>yin_sampleRate = 44100, yin_threshold = 1 / 10, yin_minFrequency = 50,
                  yin_maxFrequency = 5000\<rparr> (replicate 2000 0) = Inr None
   \<and> bpm_detect \<lparr>bpm_sampleRate = 44100, bpm_minBpm = 60, bpm_maxBpm = 180\<rparr>
        \<lparr>ab_sampleRate = 44100, ab_length = 2000, ab_channels = [replicate 2000 0]\<rparr>
       = Inr \<lparr>bpm = None, bpm_confidence = 0, beatPositions = []\<rparr>"
proof -
  let ?yd = "\<lparr>yin_sampleRate = 44100, yin_threshold = 1 / 10, yin_minFrequency = 50,
               yin_maxFrequency = 5000\<rparr>"
  let ?bd = "\<lparr>bpm_sampleRate = 44100, bpm_minBpm = 60, bpm_maxBpm = 180\<rparr>"
  have w: "windowSize_of ?bd \<le> 2000" by (simp add: windowSize_of_def)
  have one: "replicate 1 (replicate 2000 (0::real)) = [replicate 2000 0]" by simp
  from silent_input[of 2000 ?yd ?bd 1] w
  show ?thesis unfolding one by simp
qed


section \<open>The result of the advanced analysis\<close>

subsection \<open>The chromagram\<close>





subsection \<open>Ranges of the result\<close>










end
